theory Spec2Isabelle
  imports Main "HOL-Library.Char_ord" "HOL-Library.List_Lexorder" "HOL-Library.Sublist"
begin

section \<open>JavaScript values\<close>

text \<open>
  The SCIM engines work on plain JSON-like data. A value is \<open>undefined\<close>, \<open>null\<close>, a
  boolean, a number, a string, an array or an object. Numbers are the integers (the
  code only compares them). An object is the list of its own properties in insertion
  order, as \<open>Object.entries\<close> enumerates them; integer-like keys, which JavaScript
  enumerates first, are not reordered.
\<close>

datatype json = JUndef | JNull | JBool bool | JNum int | JStr string
  | JArr "json list" | JObj "(string \<times> json) list"

type_synonym obj = "(string \<times> json) list"

text \<open>
  \<open>String.prototype.toLowerCase\<close>, on the ASCII letters: a character is its eight bits,
  lowest first; the codes 65 to 90 (\<open>A\<close> to \<open>Z\<close>: bit 6 set, bits 5 and 7 clear, the low
  five bits between 1 and 26) get bit 5 set, which adds 32; every other character is kept.
\<close>

fun lower_char :: "char \<Rightarrow> char" where
  "lower_char (Char b0 b1 b2 b3 b4 b5 b6 b7) =
     (if \<not> b7 \<and> b6 \<and> \<not> b5 \<and> (b0 \<or> b1 \<or> b2 \<or> b3 \<or> b4)
         \<and> \<not> (b4 \<and> b3 \<and> (b2 \<or> (b1 \<and> b0)))
      then Char b0 b1 b2 b3 b4 True b6 b7 else Char b0 b1 b2 b3 b4 b5 b6 b7)"

definition toLowerCase :: "string \<Rightarrow> string" where
  "toLowerCase s = map lower_char s"

text \<open>\<open>typeof v\<close>, truthiness and \<open>Array.isArray\<close>.\<close>

definition typeof :: "json \<Rightarrow> string" where
  "typeof v = (case v of JUndef \<Rightarrow> ''undefined'' | JNull \<Rightarrow> ''object''
     | JBool _ \<Rightarrow> ''boolean'' | JNum _ \<Rightarrow> ''number'' | JStr _ \<Rightarrow> ''string''
     | JArr _ \<Rightarrow> ''object'' | JObj _ \<Rightarrow> ''object'')"

definition truthy :: "json \<Rightarrow> bool" where
  "truthy v = (case v of JUndef \<Rightarrow> False | JNull \<Rightarrow> False | JBool b \<Rightarrow> b
     | JNum n \<Rightarrow> n \<noteq> 0 | JStr s \<Rightarrow> s \<noteq> [] | JArr _ \<Rightarrow> True | JObj _ \<Rightarrow> True)"

definition isArray :: "json \<Rightarrow> bool" where
  "isArray v = (case v of JArr _ \<Rightarrow> True | _ \<Rightarrow> False)"

text \<open>Own properties of an object: read (\<open>o[k]\<close>), test (\<open>k in o\<close>), write
  (\<open>o[k] = v\<close>, which keeps the position of an existing key) and \<open>delete o[k]\<close>. What a
  property holds is a parameter of the writing functions: a value here, a value or a
  reference in the store model of the user engine.\<close>

definition getOwn :: "obj \<Rightarrow> string \<Rightarrow> json" where
  "getOwn ob k = (case map_of ob k of Some v \<Rightarrow> v | None \<Rightarrow> JUndef)"

definition hasOwn :: "string \<Rightarrow> (string \<times> 'v) list \<Rightarrow> bool" where
  "hasOwn k ob = (map_of ob k \<noteq> None)"

fun setOwn :: "string \<Rightarrow> 'v \<Rightarrow> (string \<times> 'v) list \<Rightarrow> (string \<times> 'v) list" where
  "setOwn k v [] = [(k, v)]"
| "setOwn k v ((k', v') # r) = (if k' = k then (k', v) # r else (k', v') # setOwn k v r)"

definition deleteOwn :: "string \<Rightarrow> (string \<times> 'v) list \<Rightarrow> (string \<times> 'v) list" where
  "deleteOwn k ob = filter (\<lambda>(k', _). k' \<noteq> k) ob"

definition fromEntries :: "(string \<times> 'v) list \<Rightarrow> (string \<times> 'v) list" where
  "fromEntries es = fold (\<lambda>(k, v) acc. setOwn k v acc) es []"

text \<open>An array seen as an object has its indices, in decimal, as keys.\<close>

function decimal :: "nat \<Rightarrow> string" where
  "decimal n = (if n < 10 then [''0123456789'' ! n]
                else decimal (n div 10) @ [''0123456789'' ! (n mod 10)])"
  by pat_completeness auto
termination
  by (relation "measure id") auto

declare decimal.simps [simp del]

definition arrayEntries :: "json list \<Rightarrow> obj" where
  "arrayEntries xs = zip (map decimal [0..<length xs]) xs"

definition entries :: "json \<Rightarrow> obj" where
  "entries v = (case v of JObj ob \<Rightarrow> ob | JArr xs \<Rightarrow> arrayEntries xs | _ \<Rightarrow> [])"

definition hasProp :: "string \<Rightarrow> json \<Rightarrow> bool" where
  "hasProp k v = (case v of JObj ob \<Rightarrow> hasOwn k ob
     | JArr xs \<Rightarrow> k = ''length'' \<or> hasOwn k (arrayEntries xs) | _ \<Rightarrow> False)"

definition getProp :: "json \<Rightarrow> string \<Rightarrow> json" where
  "getProp v k = (case v of JObj ob \<Rightarrow> getOwn ob k
     | JArr xs \<Rightarrow> (if k = ''length'' then JNum (int (length xs)) else getOwn (arrayEntries xs) k)
     | _ \<Rightarrow> JUndef)"

text \<open>
  Key equality of \<open>Map\<close> and \<open>Set\<close> (SameValueZero): primitives by value, arrays and
  objects by reference. The data is tree-shaped JSON, so two array or object values met
  in one list are never the same reference.
\<close>

definition sameValueZero :: "json \<Rightarrow> json \<Rightarrow> bool" where
  "sameValueZero a b = (case a of JArr _ \<Rightarrow> False | JObj _ \<Rightarrow> False | _ \<Rightarrow> a = b)"

fun mapSet :: "json \<Rightarrow> 'v \<Rightarrow> (json \<times> 'v) list \<Rightarrow> (json \<times> 'v) list" where
  "mapSet k v [] = [(k, v)]"
| "mapSet k v ((k', v') # r) =
     (if sameValueZero k' k then (k', v) # r else (k', v') # mapSet k v r)"

section \<open>PATCH types (patch-types.ts, patch-error.ts)\<close>

text \<open>A \<open>PatchError\<close> carries its HTTP status and its SCIM error type; the detail
  message is left out.\<close>

datatype scimType = invalidValue | invalidPath | noTarget

datatype PatchError = PatchError nat scimType

record PatchOperation =
  p_op :: "string option"
  p_path :: "string option"
  p_value :: json

record GroupMemberPatchConfig =
  allowMultiMemberAdd :: bool
  allowMultiMemberRemove :: bool
  allowRemoveAllMembers :: bool

record GroupMemberDto =
  m_value :: json
  m_display :: json
  m_type :: json

record GroupPatchState =
  g_displayName :: string
  g_externalId :: "string option"
  g_members :: "GroupMemberDto list"
  g_rawPayload :: obj

record GroupPatchResult =
  gr_displayName :: string
  gr_externalId :: "string option"
  gr_payload :: obj
  gr_members :: "GroupMemberDto list"

text \<open>\<open>xs.map(f)\<close> where \<open>f\<close> may throw: the first failure aborts.\<close>

fun mapE :: "('a \<Rightarrow> 'e + 'b) \<Rightarrow> 'a list \<Rightarrow> 'e + 'b list" where
  "mapE f [] = Inr []"
| "mapE f (x # xs) =
     (case f x of Inl e \<Rightarrow> Inl e
      | Inr y \<Rightarrow> (case mapE f xs of Inl e \<Rightarrow> Inl e | Inr ys \<Rightarrow> Inr (y # ys)))"

text \<open>The operation token, lower-cased: \<open>operation.op?.toLowerCase()\<close> followed by the
  check against \<open>['add', 'replace', 'remove']\<close>.\<close>

definition supportedOp :: "PatchOperation \<Rightarrow> PatchError + string" where
  "supportedOp operation =
     (case map_option toLowerCase (p_op operation) of
        None \<Rightarrow> Inl (PatchError 400 invalidValue)
      | Some opl \<Rightarrow>
          if opl = [] \<or> opl \<notin> set [''add'', ''replace'', ''remove'']
          then Inl (PatchError 400 invalidValue) else Inr opl)"

definition lowerPath :: "PatchOperation \<Rightarrow> string option" where
  "lowerPath operation = map_option toLowerCase (p_path operation)"

section \<open>Group PATCH engine (group-patch-engine.ts)\<close>

definition toMemberDto :: "json \<Rightarrow> PatchError + GroupMemberDto" where
  "toMemberDto member =
     (if \<not> truthy member \<or> typeof member \<noteq> ''object'' \<or> \<not> hasProp ''value'' member
      then Inl (PatchError 400 invalidValue)
      else Inr \<lparr>m_value = getProp member ''value'', m_display = getProp member ''display'',
                m_type = getProp member ''type''\<rparr>)"

definition ensureUniqueMembers :: "GroupMemberDto list \<Rightarrow> GroupMemberDto list" where
  "ensureUniqueMembers ms = map snd (fold (\<lambda>m seen. mapSet (m_value m) m seen) ms [])"

definition handleReplaceNoPath :: "json \<Rightarrow> GroupPatchState \<Rightarrow> PatchError + GroupPatchState" where
  "handleReplaceNoPath v st =
     (case v of
        JStr s \<Rightarrow> Inr (st\<lparr>g_displayName := s\<rparr>)
      | _ \<Rightarrow>
          if typeof v = ''object'' \<and> v \<noteq> JNull then
            (let newDisplayName =
                   (case getProp v ''displayName'' of JStr s \<Rightarrow> s | _ \<Rightarrow> g_displayName st);
                 newExternalId =
                   (if hasProp ''externalId'' v
                    then (case getProp v ''externalId'' of JStr s \<Rightarrow> Some s | _ \<Rightarrow> None)
                    else g_externalId st);
                 newMembers =
                   (case getProp v ''members'' of
                      JArr ms \<Rightarrow>
                        (case mapE toMemberDto ms of
                           Inl e \<Rightarrow> Inl e | Inr ds \<Rightarrow> Inr (ensureUniqueMembers ds))
                    | _ \<Rightarrow> Inr (g_members st));
                 updatedPayload =
                   fold (\<lambda>(key, val) up.
                           if key \<noteq> ''displayName'' \<and> key \<noteq> ''externalId''
                              \<and> key \<noteq> ''members'' \<and> key \<noteq> ''schemas''
                           then setOwn key val up else up)
                        (entries v) (g_rawPayload st)
             in case newMembers of
                  Inl e \<Rightarrow> Inl e
                | Inr ms \<Rightarrow> Inr \<lparr>g_displayName = newDisplayName, g_externalId = newExternalId,
                                  g_members = ms, g_rawPayload = updatedPayload\<rparr>)
          else Inl (PatchError 400 invalidValue))"

definition handleReplace :: "PatchOperation \<Rightarrow> GroupPatchState \<Rightarrow> PatchError + GroupPatchState" where
  "handleReplace operation st =
     (case lowerPath operation of
        None \<Rightarrow> handleReplaceNoPath (p_value operation) st
      | Some path \<Rightarrow>
          if path = [] then handleReplaceNoPath (p_value operation) st
          else if path = ''displayname'' then
            (case p_value operation of
               JStr s \<Rightarrow> Inr (st\<lparr>g_displayName := s\<rparr>)
             | _ \<Rightarrow> Inl (PatchError 400 invalidValue))
          else if path = ''externalid'' then
            Inr (st\<lparr>g_externalId := (case p_value operation of JStr s \<Rightarrow> Some s | _ \<Rightarrow> None)\<rparr>)
          else if path = ''members'' then
            (case p_value operation of
               JArr vs \<Rightarrow>
                 (case mapE toMemberDto vs of
                    Inl e \<Rightarrow> Inl e
                  | Inr normalized \<Rightarrow> Inr (st\<lparr>g_members := ensureUniqueMembers normalized\<rparr>))
             | _ \<Rightarrow> Inl (PatchError 400 invalidValue))
          else Inl (PatchError 400 invalidPath))"

text \<open>\<open>handleAdd\<close>: the path check, the value check, the multi-member gate, then the
  normalisation of the incoming entries and the deduplication of the whole list.\<close>

definition handleAdd :: "PatchOperation \<Rightarrow> GroupMemberDto list \<Rightarrow> bool \<Rightarrow> PatchError + GroupMemberDto list" where
  "handleAdd operation ms allowMulti =
     (let path = lowerPath operation in
      if path \<noteq> None \<and> path \<noteq> Some [] \<and> path \<noteq> Some ''members''
      then Inl (PatchError 400 invalidPath)
      else if \<not> truthy (p_value operation) then Inl (PatchError 400 invalidValue)
      else
        (let val = (case p_value operation of JArr vs \<Rightarrow> vs | v \<Rightarrow> [v]) in
         if \<not> allowMulti \<and> length val > 1 then Inl (PatchError 400 invalidValue)
         else (case mapE toMemberDto val of
                 Inl e \<Rightarrow> Inl e
               | Inr newMembers \<Rightarrow> Inr (ensureUniqueMembers (ms @ newMembers)))))"

text \<open>
  The path of a targeted removal is matched, lower-cased, against a regular expression:
  the literal \<open>members[value\<close>, white space, \<open>eq\<close>, white space, an optional double
  quote, one or more characters other than the double quote (the captured value), an
  optional double quote, \<open>]\<close> and the end of the string. \<open>matchTail\<close> is the part after
  the second run of white space; \<open>tryWs\<close> is the backtracking of that run, longest
  first.
\<close>

definition isSpace :: "char \<Rightarrow> bool" where
  "isSpace c = (c \<in> set [CHR '' '', CHR 0x09, CHR 0x0A, CHR 0x0B, CHR 0x0C, CHR 0x0D])"

definition matchTail :: "string \<Rightarrow> string option" where
  "matchTail u =
     (let u' = (case u of c # r \<Rightarrow> if c = CHR 0x22 then r else u | [] \<Rightarrow> u);
          run = takeWhile (\<lambda>c. c \<noteq> CHR 0x22) u';
          rest = dropWhile (\<lambda>c. c \<noteq> CHR 0x22) u'
      in if run \<noteq> [] \<and> rest = [CHR 0x22, CHR '']''] then Some run
         else if rest = [] \<and> length run \<ge> 2 \<and> last run = CHR '']'' then Some (butlast run)
         else None)"

fun tryWs :: "nat \<Rightarrow> string \<Rightarrow> string option" where
  "tryWs 0 t = None"
| "tryWs (Suc j) t =
     (case matchTail (drop (Suc j) t) of Some b \<Rightarrow> Some b | None \<Rightarrow> tryWs j t)"

definition memberPathMatch :: "string \<Rightarrow> string option" where
  "memberPathMatch path =
     (if prefix ''members[value'' path then
        (let r = drop (length ''members[value'') path;
             r2 = dropWhile isSpace r
         in if takeWhile isSpace r \<noteq> [] \<and> prefix ''eq'' r2 then
              (let t = drop 2 r2 in tryWs (length (takeWhile isSpace t)) t)
            else None)
      else None)"

definition handleRemove :: "PatchOperation \<Rightarrow> GroupMemberDto list \<Rightarrow> bool \<Rightarrow> bool \<Rightarrow> PatchError + GroupMemberDto list" where
  "handleRemove operation ms allowMultiRemove allowRemoveAll =
     (let path = lowerPath operation in
      case (case p_value operation of JArr vs \<Rightarrow> if vs \<noteq> [] then Some vs else None | _ \<Rightarrow> None) of
        Some vs \<Rightarrow>
          if \<not> allowMultiRemove \<and> length vs > 1 then Inl (PatchError 400 invalidValue)
          else
            (let membersToRemove =
                   map (\<lambda>item. getProp item ''value'')
                     (filter (\<lambda>item. truthy item \<and> typeof item = ''object'' \<and> hasProp ''value'' item) vs)
             in Inr (filter (\<lambda>m. \<not> (\<exists>x \<in> set membersToRemove. sameValueZero x (m_value m))) ms))
      | None \<Rightarrow>
          (case (case path of Some p \<Rightarrow> memberPathMatch p | None \<Rightarrow> None) of
             Some valueToRemove \<Rightarrow> Inr (filter (\<lambda>m. m_value m \<noteq> JStr valueToRemove) ms)
           | None \<Rightarrow>
               if path = Some ''members'' then
                 (if \<not> allowRemoveAll then Inl (PatchError 400 invalidValue) else Inr [])
               else Inl (PatchError 400 invalidPath)))"

text \<open>\<open>GroupPatchEngine.apply\<close>: the operations are folded left to right over the local
  copies of the state; the first failure aborts the batch.\<close>

definition groupStep :: "GroupMemberPatchConfig \<Rightarrow> PatchOperation \<Rightarrow> GroupPatchState \<Rightarrow> PatchError + GroupPatchState" where
  "groupStep config operation st =
     (case supportedOp operation of
        Inl e \<Rightarrow> Inl e
      | Inr opl \<Rightarrow>
          if opl = ''replace'' then handleReplace operation st
          else if opl = ''add'' then
            (case handleAdd operation (g_members st) (allowMultiMemberAdd config) of
               Inl e \<Rightarrow> Inl e | Inr ms \<Rightarrow> Inr (st\<lparr>g_members := ms\<rparr>))
          else
            (case handleRemove operation (g_members st) (allowMultiMemberRemove config)
                    (allowRemoveAllMembers config) of
               Inl e \<Rightarrow> Inl e | Inr ms \<Rightarrow> Inr (st\<lparr>g_members := ms\<rparr>)))"

fun groupFold :: "GroupMemberPatchConfig \<Rightarrow> PatchOperation list \<Rightarrow> GroupPatchState \<Rightarrow> PatchError + GroupPatchState" where
  "groupFold config [] st = Inr st"
| "groupFold config (operation # rest) st =
     (case groupStep config operation st of
        Inl e \<Rightarrow> Inl e | Inr st' \<Rightarrow> groupFold config rest st')"

definition GroupPatchEngine_apply :: "PatchOperation list \<Rightarrow> GroupPatchState \<Rightarrow> GroupMemberPatchConfig \<Rightarrow> PatchError + GroupPatchResult" where
  "GroupPatchEngine_apply operations state config =
     (case groupFold config operations state of
        Inl e \<Rightarrow> Inl e
      | Inr st \<Rightarrow> Inr \<lparr>gr_displayName = g_displayName st, gr_externalId = g_externalId st,
                        gr_payload = g_rawPayload st, gr_members = g_members st\<rparr>)"

section \<open>Filter push-down (apply-scim-filter.ts)\<close>

text \<open>
  The filter AST of the parser: comparison, logical, negation and value-path nodes, with
  the ten comparison operators. The comparison value is whatever literal the parser read
  (\<open>JUndef\<close> when the operator takes none).
\<close>

datatype compareOp = Eq | Ne | Co | Sw | Ew | Gt | Ge | Lt | Le | Pr

datatype logicalOp = And | Or

datatype FilterNode =
    CompareNode string compareOp json
  | LogicalNode logicalOp FilterNode FilterNode
  | NotNode FilterNode
  | ValuePathNode string FilterNode

datatype ColumnType = citext | varchar | boolean | uuid

record ColumnMapping =
  column :: string
  c_type :: ColumnType

type_synonym ColumnMap = "(string \<times> ColumnMapping) list"

definition USER_DB_COLUMNS :: ColumnMap where
  "USER_DB_COLUMNS =
     [(''username'', \<lparr>column = ''userName'', c_type = citext\<rparr>),
      (''displayname'', \<lparr>column = ''displayName'', c_type = citext\<rparr>),
      (''externalid'', \<lparr>column = ''externalId'', c_type = varchar\<rparr>),
      (''id'', \<lparr>column = ''scimId'', c_type = uuid\<rparr>),
      (''active'', \<lparr>column = ''active'', c_type = boolean\<rparr>)]"

definition GROUP_DB_COLUMNS :: ColumnMap where
  "GROUP_DB_COLUMNS =
     [(''displayname'', \<lparr>column = ''displayName'', c_type = citext\<rparr>),
      (''externalid'', \<lparr>column = ''externalId'', c_type = varchar\<rparr>),
      (''id'', \<lparr>column = ''scimId'', c_type = uuid\<rparr>),
      (''active'', \<lparr>column = ''active'', c_type = boolean\<rparr>)]"

text \<open>
  \<open>columnMap[attrLower]\<close>. The column maps are object literals, so the lookup also finds
  what every object inherits from \<open>Object.prototype\<close>. Of the inherited names, the two
  that a lower-cased attribute path can spell are \<open>constructor\<close> and \<open>__proto__\<close>; each
  gives an object (truthy) on which \<open>column\<close> and \<open>type\<close> are both undefined. Any other
  name that is not a key of the map gives \<open>undefined\<close>.
\<close>

definition inheritedNames :: "string list" where
  "inheritedNames = [''constructor'', ''__proto__'']"

definition lookupColumn :: "ColumnMap \<Rightarrow> string \<Rightarrow> (string option \<times> ColumnType option) option" where
  "lookupColumn columnMap attrLower =
     (case map_of columnMap attrLower of
        Some mapped \<Rightarrow> Some (Some (column mapped), Some (c_type mapped))
      | None \<Rightarrow> if attrLower \<in> set inheritedNames then Some (None, None) else None)"

text \<open>The computed key \<open>[column]\<close> of an object literal: an undefined column is the key
  \<open>undefined\<close>.\<close>

definition propertyKey :: "string option \<Rightarrow> string" where
  "propertyKey col = (case col of Some c \<Rightarrow> c | None \<Rightarrow> ''undefined'')"

text \<open>\<open>String(value)\<close>: a string is itself, a number is written in decimal, an array is
  its elements joined by commas (\<open>null\<close> and \<open>undefined\<close> elements as the empty string).\<close>

fun jsString :: "json \<Rightarrow> string" and jsJoin :: "json list \<Rightarrow> string" where
  "jsString JUndef = ''undefined''"
| "jsString JNull = ''null''"
| "jsString (JBool b) = (if b then ''true'' else ''false'')"
| "jsString (JNum n) = (if n < 0 then CHR ''-'' # decimal (nat (- n)) else decimal (nat n))"
| "jsString (JStr s) = s"
| "jsString (JArr xs) = jsJoin xs"
| "jsString (JObj ob) = ''[object Object]''"
| "jsJoin [] = []"
| "jsJoin [x] = (if x = JNull \<or> x = JUndef then [] else jsString x)"
| "jsJoin (x # y # r) = (if x = JNull \<or> x = JUndef then [] else jsString x) @ CHR '','' # jsJoin (y # r)"

text \<open>
  \<open>String(value)\<close> throws a \<open>TypeError\<close> when the conversion finds no primitive. The
  values are those of a JSON document, so no property is callable: an object that has a
  property \<open>toString\<close> of its own hides the inherited method, and the inherited
  \<open>valueOf\<close> returns the object itself, so the conversion fails; any other object is
  \<open>[object Object]\<close>. An array is joined, which converts each element that is neither
  \<open>null\<close> nor \<open>undefined\<close>.
\<close>

fun stringThrows :: "json \<Rightarrow> bool" and joinThrows :: "json list \<Rightarrow> bool" where
  "stringThrows JUndef = False"
| "stringThrows JNull = False"
| "stringThrows (JBool b) = False"
| "stringThrows (JNum n) = False"
| "stringThrows (JStr s) = False"
| "stringThrows (JArr xs) = joinThrows xs"
| "stringThrows (JObj ob) = hasOwn ''toString'' ob"
| "joinThrows [] = False"
| "joinThrows (x # r) = (stringThrows x \<or> joinThrows r)"

definition buildColumnFilter :: "string option \<Rightarrow> ColumnType option \<Rightarrow> compareOp \<Rightarrow> json \<Rightarrow> obj option" where
  "buildColumnFilter column' ty opr val =
     (let col = propertyKey column' in
      case opr of
        Eq \<Rightarrow> Some [(col, val)]
      | Ne \<Rightarrow> Some [(col, JObj [(''not'', val)])]
      | Co \<Rightarrow> if ty \<noteq> Some citext \<and> ty \<noteq> Some varchar then None
              else Some [(col, JObj [(''contains'', JStr (jsString val)), (''mode'', JStr ''insensitive'')])]
      | Sw \<Rightarrow> if ty \<noteq> Some citext \<and> ty \<noteq> Some varchar then None
              else Some [(col, JObj [(''startsWith'', JStr (jsString val)), (''mode'', JStr ''insensitive'')])]
      | Ew \<Rightarrow> if ty \<noteq> Some citext \<and> ty \<noteq> Some varchar then None
              else Some [(col, JObj [(''endsWith'', JStr (jsString val)), (''mode'', JStr ''insensitive'')])]
      | Gt \<Rightarrow> Some [(col, JObj [(''gt'', val)])]
      | Ge \<Rightarrow> Some [(col, JObj [(''gte'', val)])]
      | Lt \<Rightarrow> Some [(col, JObj [(''lt'', val)])]
      | Le \<Rightarrow> Some [(col, JObj [(''lte'', val)])]
      | Pr \<Rightarrow> Some [(col, JObj [(''not'', JNull)])])"

definition pushCompareToDb :: "string \<Rightarrow> compareOp \<Rightarrow> json \<Rightarrow> ColumnMap \<Rightarrow> obj option" where
  "pushCompareToDb attrPath opr val columnMap =
     (case lookupColumn columnMap (toLowerCase attrPath) of
        None \<Rightarrow> None
      | Some (column', ty) \<Rightarrow> buildColumnFilter column' ty opr val)"

function tryPushToDb :: "FilterNode \<Rightarrow> ColumnMap \<Rightarrow> obj option"
  and pushLogicalToDb :: "logicalOp \<Rightarrow> FilterNode \<Rightarrow> FilterNode \<Rightarrow> ColumnMap \<Rightarrow> obj option" where
  "tryPushToDb (CompareNode attrPath opr val) columnMap = pushCompareToDb attrPath opr val columnMap"
| "tryPushToDb (LogicalNode lop l r) columnMap = pushLogicalToDb lop l r columnMap"
| "tryPushToDb (NotNode f) columnMap = None"
| "tryPushToDb (ValuePathNode attrPath f) columnMap = None"
| "pushLogicalToDb lop l r columnMap =
     (case (tryPushToDb l columnMap, tryPushToDb r columnMap) of
        (Some left, Some right) \<Rightarrow>
          (case lop of
             And \<Rightarrow> Some [(''AND'', JArr [JObj left, JObj right])]
           | Or \<Rightarrow> Some [(''OR'', JArr [JObj left, JObj right])])
      | _ \<Rightarrow> None)"
  by pat_completeness auto
termination
  by (relation "measure (case_sum (\<lambda>(ast, cm). 2 * size ast)
                                  (\<lambda>(lop, l, r, cm). 2 * (size l + size r) + 1))") auto

text \<open>The result of \<open>buildUserFilter\<close> and \<open>buildGroupFilter\<close>. The in-memory evaluator
  \<open>evaluateFilter\<close> and the parser \<open>parseScimFilter\<close> live in scim-filter-parser.ts and
  are parameters here.\<close>

record FilterResult =
  dbWhere :: obj
  inMemoryFilter :: "(obj \<Rightarrow> bool) option"
  fetchAll :: bool

definition buildFilterResult :: "(FilterNode \<Rightarrow> obj \<Rightarrow> bool) \<Rightarrow> FilterNode \<Rightarrow> ColumnMap \<Rightarrow> FilterResult" where
  "buildFilterResult evaluateFilter ast columnMap =
     (case tryPushToDb ast columnMap of
        Some dbClause \<Rightarrow> \<lparr>dbWhere = dbClause, inMemoryFilter = None, fetchAll = False\<rparr>
      | None \<Rightarrow> \<lparr>dbWhere = [], inMemoryFilter = Some (\<lambda>resource. evaluateFilter ast resource),
                  fetchAll = True\<rparr>)"

datatype FilterError = InvalidFilter string

definition buildFilter :: "ColumnMap \<Rightarrow> (string \<Rightarrow> FilterNode option) \<Rightarrow> (FilterNode \<Rightarrow> obj \<Rightarrow> bool) \<Rightarrow> string option \<Rightarrow> FilterError + FilterResult" where
  "buildFilter columnMap parseScimFilter evaluateFilter filt =
     (case filt of
        None \<Rightarrow> Inr \<lparr>dbWhere = [], inMemoryFilter = None, fetchAll = False\<rparr>
      | Some f \<Rightarrow>
          if f = [] then Inr \<lparr>dbWhere = [], inMemoryFilter = None, fetchAll = False\<rparr>
          else (case parseScimFilter f of
                  None \<Rightarrow> Inl (InvalidFilter f)
                | Some ast \<Rightarrow> Inr (buildFilterResult evaluateFilter ast columnMap)))"

definition buildUserFilter :: "(string \<Rightarrow> FilterNode option) \<Rightarrow> (FilterNode \<Rightarrow> obj \<Rightarrow> bool) \<Rightarrow> string option \<Rightarrow> FilterError + FilterResult" where
  "buildUserFilter = buildFilter USER_DB_COLUMNS"

definition buildGroupFilter :: "(string \<Rightarrow> FilterNode option) \<Rightarrow> (FilterNode \<Rightarrow> obj \<Rightarrow> bool) \<Rightarrow> string option \<Rightarrow> FilterError + FilterResult" where
  "buildGroupFilter = buildFilter GROUP_DB_COLUMNS"

section \<open>Evaluation of a pushed predicate in memory (prisma-filter-evaluator.ts)\<close>

text \<open>\<open>a === b\<close>: primitives by value; an array or an object is never identical to a
  value that comes from another place.\<close>

definition strictEq :: "json \<Rightarrow> json \<Rightarrow> bool" where
  "strictEq a b = (case b of JArr _ \<Rightarrow> False | JObj _ \<Rightarrow> False | _ \<Rightarrow> a = b)"

definition matchEquality :: "json \<Rightarrow> json \<Rightarrow> bool" where
  "matchEquality stored expected =
     (case (stored, expected) of
        (JStr s, JStr e) \<Rightarrow> toLowerCase s = toLowerCase e
      | _ \<Rightarrow> strictEq stored expected)"

datatype orderOp = OGt | OGte | OLt | OLte

definition compareOrdered :: "json \<Rightarrow> json \<Rightarrow> orderOp \<Rightarrow> bool" where
  "compareOrdered stored expected opr =
     (case (stored, expected) of
        (JNum s, JNum e) \<Rightarrow>
          (case opr of OGt \<Rightarrow> s > e | OGte \<Rightarrow> s \<ge> e | OLt \<Rightarrow> s < e | OLte \<Rightarrow> s \<le> e)
      | (JStr s0, JStr e0) \<Rightarrow>
          (let s = toLowerCase s0; e = toLowerCase e0 in
           case opr of OGt \<Rightarrow> s > e | OGte \<Rightarrow> s \<ge> e | OLt \<Rightarrow> s < e | OLte \<Rightarrow> s \<le> e)
      | _ \<Rightarrow> False)"

text \<open>\<open>matchOperator\<close> returns a boolean, or throws the \<open>TypeError\<close> of \<open>String\<close> on a
  search value that cannot be converted (\<open>None\<close>). A stored value that is not a string is
  answered before the search value is converted.\<close>

definition searchString :: "json \<Rightarrow> string option" where
  "searchString v = (if stringThrows v then None else Some (jsString v))"

definition matchOperator :: "json \<Rightarrow> json \<Rightarrow> bool option" where
  "matchOperator stored opObj =
     (let caseInsensitive = (getProp opObj ''mode'' = JStr ''insensitive'') in
      if hasProp ''not'' opObj \<and>
         \<not> (hasProp ''contains'' opObj \<or> hasProp ''startsWith'' opObj
            \<or> hasProp ''endsWith'' opObj \<or> hasProp ''gt'' opObj)
      then (let notValue = getProp opObj ''not'' in
            if notValue = JNull then Some (stored \<noteq> JNull \<and> stored \<noteq> JUndef)
            else Some (\<not> matchEquality stored notValue))
      else if hasProp ''contains'' opObj then
        (case stored of
           JStr s \<Rightarrow>
             (case searchString (getProp opObj ''contains'') of
                None \<Rightarrow> None
              | Some search \<Rightarrow>
                  Some (if caseInsensitive then sublist (toLowerCase search) (toLowerCase s)
                        else sublist search s))
         | _ \<Rightarrow> Some False)
      else if hasProp ''startsWith'' opObj then
        (case stored of
           JStr s \<Rightarrow>
             (case searchString (getProp opObj ''startsWith'') of
                None \<Rightarrow> None
              | Some search \<Rightarrow>
                  Some (if caseInsensitive then prefix (toLowerCase search) (toLowerCase s)
                        else prefix search s))
         | _ \<Rightarrow> Some False)
      else if hasProp ''endsWith'' opObj then
        (case stored of
           JStr s \<Rightarrow>
             (case searchString (getProp opObj ''endsWith'') of
                None \<Rightarrow> None
              | Some search \<Rightarrow>
                  Some (if caseInsensitive then suffix (toLowerCase search) (toLowerCase s)
                        else suffix search s))
         | _ \<Rightarrow> Some False)
      else if hasProp ''gt'' opObj then Some (compareOrdered stored (getProp opObj ''gt'') OGt)
      else if hasProp ''gte'' opObj then Some (compareOrdered stored (getProp opObj ''gte'') OGte)
      else if hasProp ''lt'' opObj then Some (compareOrdered stored (getProp opObj ''lt'') OLt)
      else if hasProp ''lte'' opObj then Some (compareOrdered stored (getProp opObj ''lte'') OLte)
      else Some False)"

text \<open>
  \<open>matchesPrismaFilter\<close> walks the entries of the where clause. \<open>AND\<close> and \<open>OR\<close> hold an
  array of clauses, each an object; a where clause of another shape is outside the
  declared type \<open>Record<string, unknown>[]\<close> and gives \<open>None\<close>, as does a \<open>TypeError\<close> of
  \<open>matchOperator\<close>. \<open>every\<close> and \<open>some\<close> stop at the first clause that decides. The keys
  of the where clauses that the planner builds are column names and \<open>undefined\<close>, none of
  which a record inherits from \<open>Object.prototype\<close>: \<open>record[key]\<close> is the own property.
\<close>

fun matchesClause :: "obj \<Rightarrow> json \<Rightarrow> bool option"
  and matchesPrismaFilter :: "obj \<Rightarrow> obj \<Rightarrow> bool option"
  and everyClause :: "obj \<Rightarrow> json list \<Rightarrow> bool option"
  and someClause :: "obj \<Rightarrow> json list \<Rightarrow> bool option" where
  "matchesClause record (JObj filt) = matchesPrismaFilter record filt"
| "matchesClause record _ = None"
| "matchesPrismaFilter record [] = Some True"
| "matchesPrismaFilter record ((key, condition) # rest) =
     (if key = ''AND'' then
        (case condition of
           JArr clauses \<Rightarrow>
             (case everyClause record clauses of
                None \<Rightarrow> None
              | Some b \<Rightarrow> if \<not> b then Some False else matchesPrismaFilter record rest)
         | _ \<Rightarrow> None)
      else if key = ''OR'' then
        (case condition of
           JArr clauses \<Rightarrow>
             (case someClause record clauses of
                None \<Rightarrow> None
              | Some b \<Rightarrow> if \<not> b then Some False else matchesPrismaFilter record rest)
         | _ \<Rightarrow> None)
      else
        (let stored = getOwn record key in
         if condition = JNull \<or> typeof condition \<noteq> ''object'' then
           (if \<not> matchEquality stored condition then Some False
            else matchesPrismaFilter record rest)
         else
           (case matchOperator stored condition of
              None \<Rightarrow> None
            | Some b \<Rightarrow> if \<not> b then Some False else matchesPrismaFilter record rest)))"
| "everyClause record [] = Some True"
| "everyClause record (c # cs) =
     (case matchesClause record c of
        None \<Rightarrow> None
      | Some b \<Rightarrow> if b then everyClause record cs else Some False)"
| "someClause record [] = Some False"
| "someClause record (c # cs) =
     (case matchesClause record c of
        None \<Rightarrow> None
      | Some b \<Rightarrow> if b then Some True else someClause record cs)"

section \<open>The in-memory evaluator of the specification\<close>


definition noRelation :: "compareOp \<Rightarrow> json \<Rightarrow> json \<Rightarrow> bool" where
  "noRelation opr stored val = (opr = Ne)"

fun splitDots :: "string \<Rightarrow> string \<Rightarrow> string list" where
  "splitDots acc [] = [rev acc]"
| "splitDots acc (c # cs) =
     (if c = CHR ''.'' then rev acc # splitDots [] cs else splitDots (c # acc) cs)"

fun resolvePath :: "(obj \<Rightarrow> string \<Rightarrow> json) \<Rightarrow> string list \<Rightarrow> json \<Rightarrow> json" where
  "resolvePath get [] v = v"
| "resolvePath get (k # ks) (JObj ob) = resolvePath get ks (get ob k)"
| "resolvePath get (k # ks) (JArr xs) = JArr (map (resolvePath get (k # ks)) xs)"
| "resolvePath get (k # ks) v = JUndef"

definition resolveAttrPath :: "(obj \<Rightarrow> string \<Rightarrow> json) \<Rightarrow> obj \<Rightarrow> string \<Rightarrow> json" where
  "resolveAttrPath get record attrPath = resolvePath get (splitDots [] attrPath) (JObj record)"

definition compareValues :: "(compareOp \<Rightarrow> json \<Rightarrow> json \<Rightarrow> bool) \<Rightarrow> compareOp \<Rightarrow> json \<Rightarrow> json \<Rightarrow> bool" where
  "compareValues other opr stored val =
     (case (stored, val) of
        (JStr s0, JStr v0) \<Rightarrow>
          (let s = toLowerCase s0; v = toLowerCase v0 in
           case opr of
             Eq \<Rightarrow> s = v | Ne \<Rightarrow> s \<noteq> v
           | Co \<Rightarrow> sublist v s | Sw \<Rightarrow> prefix v s | Ew \<Rightarrow> suffix v s
           | Gt \<Rightarrow> s > v | Ge \<Rightarrow> s \<ge> v | Lt \<Rightarrow> s < v | Le \<Rightarrow> s \<le> v
           | Pr \<Rightarrow> True)
      | (JNum s, JNum v) \<Rightarrow>
          (case opr of
             Eq \<Rightarrow> s = v | Ne \<Rightarrow> s \<noteq> v
           | Gt \<Rightarrow> s > v | Ge \<Rightarrow> s \<ge> v | Lt \<Rightarrow> s < v | Le \<Rightarrow> s \<le> v
           | Pr \<Rightarrow> True
           | _ \<Rightarrow> other opr stored val)
      | (JBool s, JBool v) \<Rightarrow>
          (case opr of
             Eq \<Rightarrow> s = v | Ne \<Rightarrow> s \<noteq> v
           | Pr \<Rightarrow> True
           | _ \<Rightarrow> other opr stored val)
      | _ \<Rightarrow> if opr = Eq \<and> typeof val = ''string'' then False else other opr stored val)"

definition evaluateCompare :: "(obj \<Rightarrow> string \<Rightarrow> json) \<Rightarrow> (compareOp \<Rightarrow> json \<Rightarrow> json \<Rightarrow> bool) \<Rightarrow> string \<Rightarrow> compareOp \<Rightarrow> json \<Rightarrow> obj \<Rightarrow> bool" where
  "evaluateCompare get other attrPath opr val record =
     (let actual = resolveAttrPath get record attrPath in
      if opr = Pr then actual \<noteq> JUndef \<and> actual \<noteq> JNull
      else (case actual of
              JArr xs \<Rightarrow> list_ex (\<lambda>x. compareValues other opr x val) xs
            | _ \<Rightarrow> compareValues other opr actual val))"

fun evaluateFilter :: "(obj \<Rightarrow> string \<Rightarrow> json) \<Rightarrow> (compareOp \<Rightarrow> json \<Rightarrow> json \<Rightarrow> bool) \<Rightarrow> FilterNode \<Rightarrow> obj \<Rightarrow> bool" where
  "evaluateFilter get other (CompareNode attrPath opr val) record =
     evaluateCompare get other attrPath opr val record"
| "evaluateFilter get other (LogicalNode And l r) record =
     (evaluateFilter get other l record \<and> evaluateFilter get other r record)"
| "evaluateFilter get other (LogicalNode Or l r) record =
     (evaluateFilter get other l record \<or> evaluateFilter get other r record)"
| "evaluateFilter get other (NotNode f) record = (\<not> evaluateFilter get other f record)"
| "evaluateFilter get other (ValuePathNode attrPath f) record =
     (case resolveAttrPath get record attrPath of
        JArr xs \<Rightarrow>
          list_ex (\<lambda>x. case x of JObj element \<Rightarrow> evaluateFilter get other f element
                              | _ \<Rightarrow> False) xs
      | _ \<Rightarrow> False)"

section \<open>Notions used to state the agreement of the pushed predicate and the evaluator\<close>




definition covered :: "compareOp \<Rightarrow> json \<Rightarrow> json \<Rightarrow> bool" where
  "covered opr stored val =
     (opr = Pr
      \<or> (case (stored, val) of
            (JStr _, JStr _) \<Rightarrow> True
          | (JNum _, JNum _) \<Rightarrow> opr \<in> {Eq, Ne, Gt, Ge, Lt, Le}
          | (JBool _, JBool _) \<Rightarrow> opr \<in> {Eq, Ne}
          | _ \<Rightarrow> opr = Eq \<and> typeof val = ''string'' \<and> \<not> isArray stored))"


section \<open>User PATCH engine (user-patch-engine.ts)\<close>

record PatchConfig =
  verbosePatch :: bool

record UserPatchState =
  u_userName :: string
  u_displayName :: "string option"
  u_externalId :: "string option"
  u_active :: bool
  u_rawPayload :: obj

record UserExtractedFields =
  x_userName :: string
  x_displayName :: "string option"
  x_externalId :: "string option"
  x_active :: bool

record UserPatchResult =
  payload :: obj
  extractedFields :: UserExtractedFields

text \<open>
  The path utilities of scim-patch-path.ts are imported by the engine and are parameters
  here: \<open>'vp\<close> and \<open>'ep\<close> are the parsed value path and the parsed extension path. A call
  returns a value or throws; what it throws is not a \<open>PatchError\<close> of the engine's.
\<close>

datatype 'a outcome = Returned 'a | Threw

record ('vp, 'ep) PathUtils =
  isValuePath :: "string \<Rightarrow> bool"
  parseValuePath :: "string \<Rightarrow> 'vp option outcome"
  applyValuePathUpdate :: "obj \<Rightarrow> 'vp \<Rightarrow> json \<Rightarrow> obj outcome"
  addValuePathEntry :: "obj \<Rightarrow> 'vp \<Rightarrow> json \<Rightarrow> obj outcome"
  removeValuePathEntry :: "obj \<Rightarrow> 'vp \<Rightarrow> obj outcome"
  isExtensionPath :: "string \<Rightarrow> bool"
  parseExtensionPath :: "string \<Rightarrow> 'ep option outcome"
  applyExtensionUpdate :: "obj \<Rightarrow> 'ep \<Rightarrow> json \<Rightarrow> obj outcome"
  removeExtensionAttribute :: "obj \<Rightarrow> 'ep \<Rightarrow> obj outcome"
  resolveNoPathValue :: "obj \<Rightarrow> obj \<Rightarrow> obj outcome"

text \<open>What a call of the engine throws: a \<open>PatchError\<close> of its own, whatever a path
  utility threw, or the \<open>TypeError\<close> of a failed conversion to a string.\<close>

datatype thrown = Thrown PatchError | UtilThrown | TypeErrorThrown

definition CANONICAL_KEY_MAP :: "(string \<times> string) list" where
  "CANONICAL_KEY_MAP =
     [(''username'', ''userName''), (''externalid'', ''externalId''), (''active'', ''active''),
      (''displayname'', ''displayName''), (''name'', ''name''), (''nickname'', ''nickName''),
      (''profileurl'', ''profileUrl''), (''title'', ''title''), (''usertype'', ''userType''),
      (''preferredlanguage'', ''preferredLanguage''), (''locale'', ''locale''),
      (''timezone'', ''timezone''), (''emails'', ''emails''),
      (''phonenumbers'', ''phoneNumbers''), (''addresses'', ''addresses''),
      (''photos'', ''photos''), (''ims'', ''ims''), (''roles'', ''roles''),
      (''entitlements'', ''entitlements''), (''x509certificates'', ''x509Certificates'')]"

definition RESERVED_ATTRIBUTES :: "string list" where
  "RESERVED_ATTRIBUTES =
     [''id'', ''username'', ''userid'', ''userName'', ''externalid'', ''externalId'', ''active'']"

definition normalizeObjectKeys :: "json \<Rightarrow> obj" where
  "normalizeObjectKeys v =
     fold (\<lambda>(key, val) result.
             setOwn (case map_of CANONICAL_KEY_MAP (toLowerCase key) of
                       Some canonical \<Rightarrow> canonical | None \<Rightarrow> key) val result)
          (entries v) []"

definition extractStringValue :: "json \<Rightarrow> thrown + string" where
  "extractStringValue v =
     (case v of JStr s \<Rightarrow> Inr s | _ \<Rightarrow> Inl (Thrown (PatchError 400 invalidValue)))"

definition extractNullableStringValue :: "json \<Rightarrow> thrown + string option" where
  "extractNullableStringValue v =
     (case v of JNull \<Rightarrow> Inr None | JUndef \<Rightarrow> Inr None | JStr s \<Rightarrow> Inr (Some s)
      | _ \<Rightarrow> Inl (Thrown (PatchError 400 invalidValue)))"

definition booleanOfString :: "string \<Rightarrow> bool option" where
  "booleanOfString s =
     (let lower = toLowerCase s in
      if lower = ''true'' then Some True else if lower = ''false'' then Some False else None)"

text \<open>The message of the \<open>PatchError\<close> of \<open>extractBooleanValue\<close> contains \<open>String(value)\<close>,
  which is evaluated before the error is constructed.\<close>

definition extractBooleanValue :: "json \<Rightarrow> thrown + bool" where
  "extractBooleanValue v =
     (case (case v of JBool b \<Rightarrow> Some b | JStr s \<Rightarrow> booleanOfString s | _ \<Rightarrow> None) of
        Some b \<Rightarrow> Inr b
      | None \<Rightarrow>
          (case (if typeof v = ''object'' \<and> v \<noteq> JNull \<and> hasProp ''active'' v
                 then (case getProp v ''active'' of
                         JBool b \<Rightarrow> Some b | JStr s \<Rightarrow> booleanOfString s | _ \<Rightarrow> None)
                 else None) of
             Some b \<Rightarrow> Inr b
           | None \<Rightarrow>
               if stringThrows v then Inl TypeErrorThrown
               else Inl (Thrown (PatchError 400 invalidValue))))"

definition stripReservedAttributes :: "(string \<times> 'v) list \<Rightarrow> (string \<times> 'v) list" where
  "stripReservedAttributes pl =
     fromEntries (filter (\<lambda>(key, _). key \<notin> set RESERVED_ATTRIBUTES
                                     \<and> toLowerCase key \<notin> set RESERVED_ATTRIBUTES) pl)"

definition removeAttribute :: "(string \<times> 'v) list \<Rightarrow> string \<Rightarrow> (string \<times> 'v) list" where
  "removeAttribute pl attribute =
     (if attribute = [] then pl
      else fromEntries (filter (\<lambda>(key, _). toLowerCase key \<noteq> toLowerCase attribute) pl))"

text \<open>The dot-notation helpers, on values: the assignment to the nested object is the
  replacement of the parent's value by the updated object.\<close>

definition parentKeyOf :: "(string \<times> 'v) list \<Rightarrow> string \<Rightarrow> string" where
  "parentKeyOf rp parentAttr =
     (case find (\<lambda>k. toLowerCase k = toLowerCase parentAttr) (map fst rp) of
        Some k \<Rightarrow> k | None \<Rightarrow> parentAttr)"

definition applyDotNotation :: "obj \<Rightarrow> string \<Rightarrow> json \<Rightarrow> obj" where
  "applyDotNotation rp originalPath val =
     (let parentAttr = takeWhile (\<lambda>c. c \<noteq> CHR ''.'') originalPath;
          childAttr = drop (Suc (length parentAttr)) originalPath;
          parentKey = parentKeyOf rp parentAttr
      in case getOwn rp parentKey of
           JObj existing \<Rightarrow> setOwn parentKey (JObj (setOwn childAttr val existing)) rp
         | _ \<Rightarrow> setOwn parentKey (JObj [(childAttr, val)]) rp)"

definition removeDotNotation :: "obj \<Rightarrow> string \<Rightarrow> obj" where
  "removeDotNotation rp originalPath =
     (let parentAttr = takeWhile (\<lambda>c. c \<noteq> CHR ''.'') originalPath;
          childAttr = drop (Suc (length parentAttr)) originalPath;
          parentKey = parentKeyOf rp parentAttr
      in case getOwn rp parentKey of
           JObj existing \<Rightarrow> setOwn parentKey (JObj (deleteOwn childAttr existing)) rp
         | _ \<Rightarrow> rp)"

definition ofOutcome :: "obj outcome \<Rightarrow> UserPatchState \<Rightarrow> thrown + UserPatchState" where
  "ofOutcome r st =
     (case r of Threw \<Rightarrow> Inl UtilThrown | Returned rp \<Rightarrow> Inr (st\<lparr>u_rawPayload := rp\<rparr>))"

text \<open>A path that is present and not the empty string (the test \<open>if (originalPath)\<close>).\<close>

definition truthyPath :: "string option \<Rightarrow> string option" where
  "truthyPath originalPath =
     (case originalPath of Some p \<Rightarrow> if p = [] then None else Some p | None \<Rightarrow> None)"

definition noPathMerge :: "('vp, 'ep) PathUtils \<Rightarrow> json \<Rightarrow> UserPatchState \<Rightarrow> thrown + UserPatchState" where
  "noPathMerge U val st =
     (let u0 = normalizeObjectKeys val in
      case (if hasOwn ''userName'' u0
            then map_sum id (\<lambda>s. (s, deleteOwn ''userName'' u0)) (extractStringValue (getOwn u0 ''userName''))
            else Inr (u_userName st, u0)) of
        Inl e \<Rightarrow> Inl e
      | Inr (userName, u1) \<Rightarrow>
      (case (if hasOwn ''displayName'' u1
             then extractNullableStringValue (getOwn u1 ''displayName'')
             else Inr (u_displayName st)) of
        Inl e \<Rightarrow> Inl e
      | Inr displayName \<Rightarrow>
      (case (if hasOwn ''externalId'' u1
             then map_sum id (\<lambda>s. (s, deleteOwn ''externalId'' u1))
                    (extractNullableStringValue (getOwn u1 ''externalId''))
             else Inr (u_externalId st, u1)) of
        Inl e \<Rightarrow> Inl e
      | Inr (externalId, u2) \<Rightarrow>
      (case (if hasOwn ''active'' u2
             then map_sum id (\<lambda>b. (b, deleteOwn ''active'' u2)) (extractBooleanValue (getOwn u2 ''active''))
             else Inr (u_active st, u2)) of
        Inl e \<Rightarrow> Inl e
      | Inr (active, u3) \<Rightarrow>
          ofOutcome (resolveNoPathValue U (u_rawPayload st) u3)
            \<lparr>u_userName = userName, u_displayName = displayName, u_externalId = externalId,
             u_active = active, u_rawPayload = u_rawPayload st\<rparr>))))"

definition applyAddOrReplace :: "('vp, 'ep) PathUtils \<Rightarrow> string \<Rightarrow> string option \<Rightarrow> json \<Rightarrow> UserPatchState \<Rightarrow> PatchConfig \<Rightarrow> thrown + UserPatchState" where
  "applyAddOrReplace U opl originalPath val st config =
     (let path = map_option toLowerCase originalPath; rp = u_rawPayload st in
      if path = Some ''active'' then
        (case extractBooleanValue val of
           Inl e \<Rightarrow> Inl e
         | Inr b \<Rightarrow> Inr (st\<lparr>u_active := b, u_rawPayload := setOwn ''active'' (JBool b) rp\<rparr>))
      else if path = Some ''username'' then
        (case extractStringValue val of
           Inl e \<Rightarrow> Inl e | Inr s \<Rightarrow> Inr (st\<lparr>u_userName := s\<rparr>))
      else if path = Some ''displayname'' then
        (case extractNullableStringValue val of
           Inl e \<Rightarrow> Inl e
         | Inr d \<Rightarrow>
             Inr (st\<lparr>u_displayName := d,
                     u_rawPayload := setOwn ''displayName''
                       (case d of None \<Rightarrow> JNull | Some s \<Rightarrow> JStr s) rp\<rparr>))
      else if path = Some ''externalid'' then
        (case extractNullableStringValue val of
           Inl e \<Rightarrow> Inl e | Inr x \<Rightarrow> Inr (st\<lparr>u_externalId := x\<rparr>))
      else
        (case truthyPath originalPath of
           Some p \<Rightarrow>
             if isExtensionPath U p then
               (case parseExtensionPath U p of
                  Threw \<Rightarrow> Inl UtilThrown
                | Returned None \<Rightarrow> Inr st
                | Returned (Some extParsed) \<Rightarrow> ofOutcome (applyExtensionUpdate U rp extParsed val) st)
             else if isValuePath U p then
               (case parseValuePath U p of
                  Threw \<Rightarrow> Inl UtilThrown
                | Returned None \<Rightarrow> Inr st
                | Returned (Some vpParsed) \<Rightarrow>
                    ofOutcome (if opl = ''add'' then addValuePathEntry U rp vpParsed val
                               else applyValuePathUpdate U rp vpParsed val) st)
             else if verbosePatch config \<and> CHR ''.'' \<in> set p then
               Inr (st\<lparr>u_rawPayload := applyDotNotation rp p val\<rparr>)
             else Inr (st\<lparr>u_rawPayload := setOwn p val rp\<rparr>)
         | None \<Rightarrow>
             if typeof val = ''object'' \<and> val \<noteq> JNull then noPathMerge U val st
             else Inr st))"

definition applyRemove :: "('vp, 'ep) PathUtils \<Rightarrow> string option \<Rightarrow> UserPatchState \<Rightarrow> PatchConfig \<Rightarrow> thrown + UserPatchState" where
  "applyRemove U originalPath st config =
     (let path = map_option toLowerCase originalPath; rp = u_rawPayload st in
      if path = Some ''active'' then
        Inr (st\<lparr>u_active := False, u_rawPayload := setOwn ''active'' (JBool False) rp\<rparr>)
      else
        (case truthyPath originalPath of
           Some p \<Rightarrow>
             if isExtensionPath U p then
               (case parseExtensionPath U p of
                  Threw \<Rightarrow> Inl UtilThrown
                | Returned None \<Rightarrow> Inr st
                | Returned (Some extParsed) \<Rightarrow> ofOutcome (removeExtensionAttribute U rp extParsed) st)
             else if isValuePath U p then
               (case parseValuePath U p of
                  Threw \<Rightarrow> Inl UtilThrown
                | Returned None \<Rightarrow> Inr st
                | Returned (Some vpParsed) \<Rightarrow> ofOutcome (removeValuePathEntry U rp vpParsed) st)
             else if verbosePatch config \<and> CHR ''.'' \<in> set p then
               Inr (st\<lparr>u_rawPayload := removeDotNotation rp p\<rparr>)
             else Inr (st\<lparr>u_rawPayload := removeAttribute rp p\<rparr>)
         | None \<Rightarrow> Inl (Thrown (PatchError 400 noTarget))))"

definition userStep :: "('vp, 'ep) PathUtils \<Rightarrow> PatchConfig \<Rightarrow> PatchOperation \<Rightarrow> UserPatchState \<Rightarrow> thrown + UserPatchState" where
  "userStep U config operation st =
     (case supportedOp operation of
        Inl e \<Rightarrow> Inl (Thrown e)
      | Inr opl \<Rightarrow>
          if opl = ''add'' \<or> opl = ''replace''
          then applyAddOrReplace U opl (p_path operation) (p_value operation) st config
          else applyRemove U (p_path operation) st config)"

fun userFold :: "('vp, 'ep) PathUtils \<Rightarrow> PatchConfig \<Rightarrow> PatchOperation list \<Rightarrow> UserPatchState \<Rightarrow> thrown + UserPatchState" where
  "userFold U config [] st = Inr st"
| "userFold U config (operation # rest) st =
     (case userStep U config operation st of
        Inl e \<Rightarrow> Inl e | Inr st' \<Rightarrow> userFold U config rest st')"

definition UserPatchEngine_apply :: "('vp, 'ep) PathUtils \<Rightarrow> PatchOperation list \<Rightarrow> UserPatchState \<Rightarrow> PatchConfig \<Rightarrow> thrown + UserPatchResult" where
  "UserPatchEngine_apply U operations state config =
     (case userFold U config operations state of
        Inl e \<Rightarrow> Inl e
      | Inr st \<Rightarrow>
          Inr \<lparr>payload = stripReservedAttributes (u_rawPayload st),
               extractedFields = \<lparr>x_userName = u_userName st, x_displayName = u_displayName st,
                 x_externalId = u_externalId st, x_active = u_active st\<rparr>\<rparr>)"

section \<open>User PATCH engine over a store of shared objects (user-patch-engine.ts)\<close>

text \<open>
  \<open>apply\<close> starts from \<open>{ ...state.rawPayload }\<close>, a new object whose properties hold the
  same objects and arrays as the properties of the caller's payload. This second model of
  the engine keeps those objects and arrays in a store, to follow what the caller reads
  from its state after the call. A property of the payload holds a reference into the
  store, or a value of its own: a primitive, or an object or array that an operation or the
  engine supplied, which the caller's state does not reach. The payload that the engine
  works on is a list of such properties: it is the engine's own object from the first line
  of \<open>apply\<close> on.
\<close>

datatype slot = Val json | Ref nat

type_synonym store = "nat \<Rightarrow> json option"

type_synonym slots = "(string \<times> slot) list"

definition deref :: "store \<Rightarrow> slot \<Rightarrow> json" where
  "deref h s = (case s of Val v \<Rightarrow> v | Ref a \<Rightarrow> (case h a of Some v \<Rightarrow> v | None \<Rightarrow> JUndef))"

text \<open>The payload as its reader sees it.\<close>

definition viewPayload :: "store \<Rightarrow> slots \<Rightarrow> obj" where
  "viewPayload h rp = map (\<lambda>(k, s). (k, deref h s)) rp"

record UserPatchState_st =
  s_userName :: string
  s_displayName :: "string option"
  s_externalId :: "string option"
  s_active :: bool
  s_rawPayload :: slots

record UserPatchResult_st =
  payload_st :: slots
  extractedFields_st :: UserExtractedFields

text \<open>The path utilities, as parameters again: an update receives the store with the
  payload, and leaves a store behind whether it returns or throws.\<close>

record ('vp, 'ep) PathUtils_st =
  isValuePath_st :: "string \<Rightarrow> bool"
  parseValuePath_st :: "string \<Rightarrow> 'vp option outcome"
  applyValuePathUpdate_st :: "store \<Rightarrow> slots \<Rightarrow> 'vp \<Rightarrow> json \<Rightarrow> store \<times> slots outcome"
  addValuePathEntry_st :: "store \<Rightarrow> slots \<Rightarrow> 'vp \<Rightarrow> json \<Rightarrow> store \<times> slots outcome"
  removeValuePathEntry_st :: "store \<Rightarrow> slots \<Rightarrow> 'vp \<Rightarrow> store \<times> slots outcome"
  isExtensionPath_st :: "string \<Rightarrow> bool"
  parseExtensionPath_st :: "string \<Rightarrow> 'ep option outcome"
  applyExtensionUpdate_st :: "store \<Rightarrow> slots \<Rightarrow> 'ep \<Rightarrow> json \<Rightarrow> store \<times> slots outcome"
  removeExtensionAttribute_st :: "store \<Rightarrow> slots \<Rightarrow> 'ep \<Rightarrow> store \<times> slots outcome"
  resolveNoPathValue_st :: "store \<Rightarrow> slots \<Rightarrow> obj \<Rightarrow> store \<times> slots outcome"

text \<open>
  The dot-notation helpers. When the parent property holds an object of the store, the
  assignment \<open>existing[childAttr] = value\<close> and \<open>delete existing[childAttr]\<close> write to that
  object, in the store.
\<close>

definition applyDotNotation_st :: "store \<Rightarrow> slots \<Rightarrow> string \<Rightarrow> json \<Rightarrow> store \<times> slots" where
  "applyDotNotation_st h rp originalPath val =
     (let parentAttr = takeWhile (\<lambda>c. c \<noteq> CHR ''.'') originalPath;
          childAttr = drop (Suc (length parentAttr)) originalPath;
          parentKey = parentKeyOf rp parentAttr
      in case map_of rp parentKey of
           Some (Ref a) \<Rightarrow>
             (case h a of
                Some (JObj existing) \<Rightarrow> (h(a \<mapsto> JObj (setOwn childAttr val existing)), rp)
              | _ \<Rightarrow> (h, setOwn parentKey (Val (JObj [(childAttr, val)])) rp))
         | Some (Val (JObj existing)) \<Rightarrow>
             (h, setOwn parentKey (Val (JObj (setOwn childAttr val existing))) rp)
         | _ \<Rightarrow> (h, setOwn parentKey (Val (JObj [(childAttr, val)])) rp))"

definition removeDotNotation_st :: "store \<Rightarrow> slots \<Rightarrow> string \<Rightarrow> store \<times> slots" where
  "removeDotNotation_st h rp originalPath =
     (let parentAttr = takeWhile (\<lambda>c. c \<noteq> CHR ''.'') originalPath;
          childAttr = drop (Suc (length parentAttr)) originalPath;
          parentKey = parentKeyOf rp parentAttr
      in case map_of rp parentKey of
           Some (Ref a) \<Rightarrow>
             (case h a of
                Some (JObj existing) \<Rightarrow> (h(a \<mapsto> JObj (deleteOwn childAttr existing)), rp)
              | _ \<Rightarrow> (h, rp))
         | Some (Val (JObj existing)) \<Rightarrow>
             (h, setOwn parentKey (Val (JObj (deleteOwn childAttr existing))) rp)
         | _ \<Rightarrow> (h, rp))"

definition ofOutcome_st :: "store \<times> slots outcome \<Rightarrow> UserPatchState_st \<Rightarrow> store \<times> (thrown + UserPatchState_st)" where
  "ofOutcome_st r st =
     (case r of (h, Threw) \<Rightarrow> (h, Inl UtilThrown)
      | (h, Returned rp) \<Rightarrow> (h, Inr (st\<lparr>s_rawPayload := rp\<rparr>)))"

definition noPathMerge_st :: "('vp, 'ep) PathUtils_st \<Rightarrow> store \<Rightarrow> json \<Rightarrow> UserPatchState_st \<Rightarrow> store \<times> (thrown + UserPatchState_st)" where
  "noPathMerge_st U h val st =
     (let u0 = normalizeObjectKeys val in
      case (if hasOwn ''userName'' u0
            then map_sum id (\<lambda>s. (s, deleteOwn ''userName'' u0)) (extractStringValue (getOwn u0 ''userName''))
            else Inr (s_userName st, u0)) of
        Inl e \<Rightarrow> (h, Inl e)
      | Inr (userName, u1) \<Rightarrow>
      (case (if hasOwn ''displayName'' u1
             then extractNullableStringValue (getOwn u1 ''displayName'')
             else Inr (s_displayName st)) of
        Inl e \<Rightarrow> (h, Inl e)
      | Inr displayName \<Rightarrow>
      (case (if hasOwn ''externalId'' u1
             then map_sum id (\<lambda>s. (s, deleteOwn ''externalId'' u1))
                    (extractNullableStringValue (getOwn u1 ''externalId''))
             else Inr (s_externalId st, u1)) of
        Inl e \<Rightarrow> (h, Inl e)
      | Inr (externalId, u2) \<Rightarrow>
      (case (if hasOwn ''active'' u2
             then map_sum id (\<lambda>b. (b, deleteOwn ''active'' u2)) (extractBooleanValue (getOwn u2 ''active''))
             else Inr (s_active st, u2)) of
        Inl e \<Rightarrow> (h, Inl e)
      | Inr (active, u3) \<Rightarrow>
          ofOutcome_st (resolveNoPathValue_st U h (s_rawPayload st) u3)
            \<lparr>s_userName = userName, s_displayName = displayName, s_externalId = externalId,
             s_active = active, s_rawPayload = s_rawPayload st\<rparr>))))"

definition applyAddOrReplace_st :: "('vp, 'ep) PathUtils_st \<Rightarrow> store \<Rightarrow> string \<Rightarrow> string option \<Rightarrow> json \<Rightarrow> UserPatchState_st \<Rightarrow> PatchConfig \<Rightarrow> store \<times> (thrown + UserPatchState_st)" where
  "applyAddOrReplace_st U h opl originalPath val st config =
     (let path = map_option toLowerCase originalPath; rp = s_rawPayload st in
      if path = Some ''active'' then
        (case extractBooleanValue val of
           Inl e \<Rightarrow> (h, Inl e)
         | Inr b \<Rightarrow> (h, Inr (st\<lparr>s_active := b, s_rawPayload := setOwn ''active'' (Val (JBool b)) rp\<rparr>)))
      else if path = Some ''username'' then
        (case extractStringValue val of
           Inl e \<Rightarrow> (h, Inl e) | Inr s \<Rightarrow> (h, Inr (st\<lparr>s_userName := s\<rparr>)))
      else if path = Some ''displayname'' then
        (case extractNullableStringValue val of
           Inl e \<Rightarrow> (h, Inl e)
         | Inr d \<Rightarrow>
             (h, Inr (st\<lparr>s_displayName := d,
                         s_rawPayload := setOwn ''displayName''
                           (Val (case d of None \<Rightarrow> JNull | Some s \<Rightarrow> JStr s)) rp\<rparr>)))
      else if path = Some ''externalid'' then
        (case extractNullableStringValue val of
           Inl e \<Rightarrow> (h, Inl e) | Inr x \<Rightarrow> (h, Inr (st\<lparr>s_externalId := x\<rparr>)))
      else
        (case truthyPath originalPath of
           Some p \<Rightarrow>
             if isExtensionPath_st U p then
               (case parseExtensionPath_st U p of
                  Threw \<Rightarrow> (h, Inl UtilThrown)
                | Returned None \<Rightarrow> (h, Inr st)
                | Returned (Some extParsed) \<Rightarrow>
                    ofOutcome_st (applyExtensionUpdate_st U h rp extParsed val) st)
             else if isValuePath_st U p then
               (case parseValuePath_st U p of
                  Threw \<Rightarrow> (h, Inl UtilThrown)
                | Returned None \<Rightarrow> (h, Inr st)
                | Returned (Some vpParsed) \<Rightarrow>
                    ofOutcome_st (if opl = ''add'' then addValuePathEntry_st U h rp vpParsed val
                                  else applyValuePathUpdate_st U h rp vpParsed val) st)
             else if verbosePatch config \<and> CHR ''.'' \<in> set p then
               (case applyDotNotation_st h rp p val of
                  (h', rp') \<Rightarrow> (h', Inr (st\<lparr>s_rawPayload := rp'\<rparr>)))
             else (h, Inr (st\<lparr>s_rawPayload := setOwn p (Val val) rp\<rparr>))
         | None \<Rightarrow>
             if typeof val = ''object'' \<and> val \<noteq> JNull then noPathMerge_st U h val st
             else (h, Inr st)))"

definition applyRemove_st :: "('vp, 'ep) PathUtils_st \<Rightarrow> store \<Rightarrow> string option \<Rightarrow> UserPatchState_st \<Rightarrow> PatchConfig \<Rightarrow> store \<times> (thrown + UserPatchState_st)" where
  "applyRemove_st U h originalPath st config =
     (let path = map_option toLowerCase originalPath; rp = s_rawPayload st in
      if path = Some ''active'' then
        (h, Inr (st\<lparr>s_active := False, s_rawPayload := setOwn ''active'' (Val (JBool False)) rp\<rparr>))
      else
        (case truthyPath originalPath of
           Some p \<Rightarrow>
             if isExtensionPath_st U p then
               (case parseExtensionPath_st U p of
                  Threw \<Rightarrow> (h, Inl UtilThrown)
                | Returned None \<Rightarrow> (h, Inr st)
                | Returned (Some extParsed) \<Rightarrow>
                    ofOutcome_st (removeExtensionAttribute_st U h rp extParsed) st)
             else if isValuePath_st U p then
               (case parseValuePath_st U p of
                  Threw \<Rightarrow> (h, Inl UtilThrown)
                | Returned None \<Rightarrow> (h, Inr st)
                | Returned (Some vpParsed) \<Rightarrow>
                    ofOutcome_st (removeValuePathEntry_st U h rp vpParsed) st)
             else if verbosePatch config \<and> CHR ''.'' \<in> set p then
               (case removeDotNotation_st h rp p of
                  (h', rp') \<Rightarrow> (h', Inr (st\<lparr>s_rawPayload := rp'\<rparr>)))
             else (h, Inr (st\<lparr>s_rawPayload := removeAttribute rp p\<rparr>))
         | None \<Rightarrow> (h, Inl (Thrown (PatchError 400 noTarget)))))"

definition userStep_st :: "('vp, 'ep) PathUtils_st \<Rightarrow> PatchConfig \<Rightarrow> PatchOperation \<Rightarrow> store \<Rightarrow> UserPatchState_st \<Rightarrow> store \<times> (thrown + UserPatchState_st)" where
  "userStep_st U config operation h st =
     (case supportedOp operation of
        Inl e \<Rightarrow> (h, Inl (Thrown e))
      | Inr opl \<Rightarrow>
          if opl = ''add'' \<or> opl = ''replace''
          then applyAddOrReplace_st U h opl (p_path operation) (p_value operation) st config
          else applyRemove_st U h (p_path operation) st config)"

fun userFold_st :: "('vp, 'ep) PathUtils_st \<Rightarrow> PatchConfig \<Rightarrow> PatchOperation list \<Rightarrow> store \<Rightarrow> UserPatchState_st \<Rightarrow> store \<times> (thrown + UserPatchState_st)" where
  "userFold_st U config [] h st = (h, Inr st)"
| "userFold_st U config (operation # rest) h st =
     (case userStep_st U config operation h st of
        (h', Inl e) \<Rightarrow> (h', Inl e)
      | (h', Inr st') \<Rightarrow> userFold_st U config rest h' st')"

text \<open>The call \<open>apply(operations, state, config)\<close> in the store \<open>h\<close>: the store it leaves
  behind, and what it throws or returns. The spread of its first line copies the
  properties, references included.\<close>

definition UserPatchEngine_apply_st :: "('vp, 'ep) PathUtils_st \<Rightarrow> store \<Rightarrow> PatchOperation list \<Rightarrow> UserPatchState_st \<Rightarrow> PatchConfig \<Rightarrow> store \<times> (thrown + UserPatchResult_st)" where
  "UserPatchEngine_apply_st U h operations state config =
     (case userFold_st U config operations h state of
        (h', Inl e) \<Rightarrow> (h', Inl e)
      | (h', Inr st) \<Rightarrow>
          (h', Inr \<lparr>payload_st = stripReservedAttributes (s_rawPayload st),
                    extractedFields_st = \<lparr>x_userName = s_userName st, x_displayName = s_displayName st,
                      x_externalId = s_externalId st, x_active = s_active st\<rparr>\<rparr>))"

section \<open>Fixtures of the unit tests\<close>

text \<open>\<open>strictConfig\<close>, \<open>defaultConfig\<close> and \<open>makeState()\<close> of group-patch-engine.spec.ts.\<close>

definition strictConfig :: GroupMemberPatchConfig where
  "strictConfig = \<lparr>allowMultiMemberAdd = False, allowMultiMemberRemove = False,
     allowRemoveAllMembers = False\<rparr>"

definition defaultGroupConfig :: GroupMemberPatchConfig where
  "defaultGroupConfig = \<lparr>allowMultiMemberAdd = True, allowMultiMemberRemove = True,
     allowRemoveAllMembers = True\<rparr>"

definition makeMember :: "string \<Rightarrow> GroupMemberDto" where
  "makeMember uid = \<lparr>m_value = JStr uid, m_display = JStr (''User '' @ uid), m_type = JUndef\<rparr>"

definition engineering :: GroupPatchState where
  "engineering = \<lparr>g_displayName = ''Engineering'', g_externalId = Some ''grp-001'',
     g_members = [makeMember ''user-1'', makeMember ''user-2''], g_rawPayload = []\<rparr>"

section \<open>Notions used to state the properties of the member list\<close>

text \<open>No two entries of a member list have the same \<open>value\<close>, by the key equality of
  the \<open>Map\<close> that \<open>ensureUniqueMembers\<close> uses.\<close>

fun noDuplicateValues :: "GroupMemberDto list \<Rightarrow> bool" where
  "noDuplicateValues [] = True"
| "noDuplicateValues (m # ms) =
     (list_all (\<lambda>x. \<not> sameValueZero (m_value m) (m_value x)) ms \<and> noDuplicateValues ms)"

text \<open>One \<open>seen.set(member.value, member)\<close>, read on the list of the map's values.\<close>

fun putMember :: "GroupMemberDto \<Rightarrow> GroupMemberDto list \<Rightarrow> GroupMemberDto list" where
  "putMember x [] = [x]"
| "putMember x (m # r) =
     (if sameValueZero (m_value m) (m_value x) then x # r else m # putMember x r)"

text \<open>
  The entries supplied to the engine, in the order of supply: the members of the input
  state, then the normalised entries of each add; a replace that carries a member array
  (path \<open>members\<close>, or no path and an object with a \<open>members\<close> array) starts the list
  afresh with its entries.
\<close>

definition incomingMembers :: "json list \<Rightarrow> GroupMemberDto list" where
  "incomingMembers vs = (case mapE toMemberDto vs of Inr ds \<Rightarrow> ds | Inl e \<Rightarrow> [])"

definition replacementMembers :: "PatchOperation \<Rightarrow> json list option" where
  "replacementMembers operation =
     (if lowerPath operation = Some ''members'' then
        (case p_value operation of JArr vs \<Rightarrow> Some vs | _ \<Rightarrow> None)
      else if lowerPath operation = None \<or> lowerPath operation = Some [] then
        (case getProp (p_value operation) ''members'' of JArr vs \<Rightarrow> Some vs | _ \<Rightarrow> None)
      else None)"

definition rewritesMembers :: "PatchOperation \<Rightarrow> bool" where
  "rewritesMembers operation =
     (map_option toLowerCase (p_op operation) = Some ''add''
      \<or> (map_option toLowerCase (p_op operation) = Some ''replace''
          \<and> replacementMembers operation \<noteq> None))"

definition suppliedBy :: "PatchOperation \<Rightarrow> GroupMemberDto list \<Rightarrow> GroupMemberDto list" where
  "suppliedBy operation acc =
     (if map_option toLowerCase (p_op operation) = Some ''add'' then
        acc @ incomingMembers (case p_value operation of JArr vs \<Rightarrow> vs | v \<Rightarrow> [v])
      else if map_option toLowerCase (p_op operation) = Some ''replace'' then
        (case replacementMembers operation of Some vs \<Rightarrow> incomingMembers vs | None \<Rightarrow> acc)
      else acc)"

definition suppliedEntries :: "PatchOperation list \<Rightarrow> GroupMemberDto list \<Rightarrow> GroupMemberDto list" where
  "suppliedEntries ops initial = fold suppliedBy ops initial"

definition isAddOrReplace :: "PatchOperation \<Rightarrow> bool" where
  "isAddOrReplace operation =
     (map_option toLowerCase (p_op operation) = Some ''add''
      \<or> map_option toLowerCase (p_op operation) = Some ''replace'')"

definition keepLastAdd :: PatchOperation where
  "keepLastAdd = \<lparr>p_op = Some ''add'', p_path = Some ''members'',
     p_value = JArr [JObj [(''value'', JStr ''a''), (''display'', JStr ''First'')],
                     JObj [(''value'', JStr ''b'')],
                     JObj [(''value'', JStr ''a''), (''display'', JStr ''Second'')]]\<rparr>"

definition renameToSales :: PatchOperation where
  "renameToSales = \<lparr>p_op = Some ''replace'', p_path = Some ''displayName'',
     p_value = JStr ''Sales''\<rparr>"

definition duplicated :: GroupPatchState where
  "duplicated = \<lparr>g_displayName = ''Engineering'', g_externalId = None,
     g_members = [makeMember ''user-1'', makeMember ''user-1''], g_rawPayload = []\<rparr>"

section \<open>Notions used to state the properties of the user engine\<close>

text \<open>
  A boolean-like value, in the words of the specification: a boolean, or one of the
  strings \<open>true\<close> and \<open>false\<close> in any letter case; and a value accepted for \<open>active\<close>: a
  boolean-like value, or an object whose \<open>active\<close> property is boolean-like.
\<close>

definition boolLike :: "json \<Rightarrow> bool option" where
  "boolLike v =
     (case v of
        JBool b \<Rightarrow> Some b
      | JStr s \<Rightarrow> (if toLowerCase s = ''true'' then Some True
                   else if toLowerCase s = ''false'' then Some False else None)
      | _ \<Rightarrow> None)"

definition acceptedActive :: "json \<Rightarrow> bool option" where
  "acceptedActive v =
     (case boolLike v of
        Some b \<Rightarrow> Some b
      | None \<Rightarrow> (case v of JObj ob \<Rightarrow> if hasOwn ''active'' ob then boolLike (getOwn ob ''active'') else None
                 | _ \<Rightarrow> None))"

text \<open>A key that \<open>stripReservedAttributes\<close> keeps.\<close>

definition nonReserved :: "string \<Rightarrow> bool" where
  "nonReserved k = (k \<notin> set RESERVED_ATTRIBUTES \<and> toLowerCase k \<notin> set RESERVED_ATTRIBUTES)"

text \<open>
  An update of the payload is stable under the stripping of the reserved keys when,
  applied again to its own stripped result, it returns a payload that strips to the same.
  The updates a replace delegates to the path utilities are those of an extension path, of
  a value path and of the path-less merge.
\<close>

definition stableUnderStrip :: "(obj \<Rightarrow> obj outcome) \<Rightarrow> bool" where
  "stableUnderStrip h =
     (\<forall>rp rp'. distinct (map fst rp) \<longrightarrow> h rp = Returned rp' \<longrightarrow>
        (\<exists>rp''. h (stripReservedAttributes rp') = Returned rp''
                \<and> stripReservedAttributes rp'' = stripReservedAttributes rp'))"

definition replaceUtilsStable :: "('vp, 'ep) PathUtils \<Rightarrow> bool" where
  "replaceUtilsStable U =
     ((\<forall>e v. stableUnderStrip (\<lambda>rp. applyExtensionUpdate U rp e v))
      \<and> (\<forall>vp v. stableUnderStrip (\<lambda>rp. applyValuePathUpdate U rp vp v))
      \<and> (\<forall>u. stableUnderStrip (\<lambda>rp. resolveNoPathValue U rp u)))"

text \<open>The state after a further, identical replace agrees with the first on the fields
  and, once stripped, on the payload.\<close>

definition sameOutcome :: "UserPatchState \<Rightarrow> UserPatchState \<Rightarrow> bool" where
  "sameOutcome st2 st1 =
     (stripReservedAttributes (u_rawPayload st2) = stripReservedAttributes (u_rawPayload st1)
      \<and> u_userName st2 = u_userName st1 \<and> u_displayName st2 = u_displayName st1
      \<and> u_externalId st2 = u_externalId st1 \<and> u_active st2 = u_active st1)"

text \<open>
  A replace that the engine applies with its own code: it has a path, and the path is
  one of the four first-class fields or is taken by the path utilities for neither an
  extension path nor a value path. Such a replace never reaches an update of
  scim-patch-path.ts; \<open>quietUtils\<close> are the utilities with the same path tests and updates
  that return the payload as it is.
\<close>

definition engineApplied :: "('vp, 'ep) PathUtils \<Rightarrow> PatchOperation \<Rightarrow> bool" where
  "engineApplied U r =
     (case truthyPath (p_path r) of
        None \<Rightarrow> False
      | Some p \<Rightarrow>
          toLowerCase p \<in> {''active'', ''username'', ''displayname'', ''externalid''}
          \<or> (\<not> isExtensionPath U p \<and> \<not> isValuePath U p))"

definition quietUtils :: "('vp, 'ep) PathUtils \<Rightarrow> ('vp, 'ep) PathUtils" where
  "quietUtils U =
     U\<lparr>applyValuePathUpdate := (\<lambda>rp vp v. Returned rp),
       applyExtensionUpdate := (\<lambda>rp ep v. Returned rp),
       resolveNoPathValue := (\<lambda>rp u. Returned rp)\<rparr>"

text \<open>The state a caller builds from a result, to apply a further batch to it.\<close>

definition userStateOf :: "UserPatchResult \<Rightarrow> UserPatchState" where
  "userStateOf r =
     \<lparr>u_userName = x_userName (extractedFields r), u_displayName = x_displayName (extractedFields r),
      u_externalId = x_externalId (extractedFields r), u_active = x_active (extractedFields r),
      u_rawPayload = payload r\<rparr>"

definition groupStateOf :: "GroupPatchResult \<Rightarrow> GroupPatchState" where
  "groupStateOf r =
     \<lparr>g_displayName = gr_displayName r, g_externalId = gr_externalId r,
      g_members = gr_members r, g_rawPayload = gr_payload r\<rparr>"

text \<open>\<open>defaultConfig\<close> and \<open>makeState()\<close> of user-patch-engine.spec.ts, and path
  utilities that recognise no path as a value path or an extension path.\<close>

definition defaultUserConfig :: PatchConfig where
  "defaultUserConfig = \<lparr>verbosePatch = False\<rparr>"

definition verboseConfig :: PatchConfig where
  "verboseConfig = \<lparr>verbosePatch = True\<rparr>"

definition jdoe :: UserPatchState where
  "jdoe = \<lparr>u_userName = ''jdoe@example.com'', u_displayName = Some ''John Doe'',
     u_externalId = Some ''ext-001'', u_active = True,
     u_rawPayload =
       [(''displayName'', JStr ''John Doe''),
        (''name'', JObj [(''givenName'', JStr ''John''), (''familyName'', JStr ''Doe'')]),
        (''emails'', JArr [JObj [(''type'', JStr ''work''), (''value'', JStr ''jdoe@example.com''),
                                (''primary'', JBool True)]])]\<rparr>"

definition plainPaths :: "(unit, unit) PathUtils" where
  "plainPaths =
     \<lparr>isValuePath = (\<lambda>p. False), parseValuePath = (\<lambda>p. Returned None),
      applyValuePathUpdate = (\<lambda>rp vp v. Returned rp), addValuePathEntry = (\<lambda>rp vp v. Returned rp),
      removeValuePathEntry = (\<lambda>rp vp. Returned rp),
      isExtensionPath = (\<lambda>p. False), parseExtensionPath = (\<lambda>p. Returned None),
      applyExtensionUpdate = (\<lambda>rp ep v. Returned rp),
      removeExtensionAttribute = (\<lambda>rp ep. Returned rp),
      resolveNoPathValue = (\<lambda>rp u. Returned (fold (\<lambda>(k, v) acc. setOwn k v acc) u rp))\<rparr>"

definition hackAdd :: PatchOperation where
  "hackAdd = \<lparr>p_op = Some ''add'', p_path = None,
     p_value = JObj [(''id'', JStr ''bad''), (''userName'', JStr ''hack''),
                     (''active'', JBool True), (''title'', JStr ''OK'')]\<rparr>"

definition salesGroup :: GroupPatchResult where
  "salesGroup = \<lparr>gr_displayName = ''Sales'', gr_externalId = Some ''grp-001'', gr_payload = [],
     gr_members = [makeMember ''user-1'', makeMember ''user-2'']\<rparr>"

text \<open>Scenario 2 of the specification.\<close>

definition scenario2 :: FilterNode where
  "scenario2 = LogicalNode And (CompareNode ''userName'' Eq (JStr ''john''))
                              (CompareNode ''emails.value'' Eq (JStr ''x@y.com''))"










text \<open>The user of \<open>makeState()\<close> after a replace of \<open>name.givenName\<close> by Jane.\<close>

definition janeUser :: UserPatchResult where
  "janeUser =
     \<lparr>payload =
        [(''displayName'', JStr ''John Doe''),
         (''name'', JObj [(''givenName'', JStr ''Jane''), (''familyName'', JStr ''Doe'')]),
         (''emails'', JArr [JObj [(''type'', JStr ''work''), (''value'', JStr ''jdoe@example.com''),
                                 (''primary'', JBool True)]])],
      extractedFields = \<lparr>x_userName = ''jdoe@example.com'', x_displayName = Some ''John Doe'',
        x_externalId = Some ''ext-001'', x_active = True\<rparr>\<rparr>"

text \<open>A value for \<open>active\<close> that is an object with a property \<open>toString\<close>.\<close>

definition replaceActiveOdd :: PatchOperation where
  "replaceActiveOdd = \<lparr>p_op = Some ''replace'', p_path = Some ''active'',
     p_value = JObj [(''toString'', JStr ''x'')]\<rparr>"

text \<open>\<open>makeState()\<close> of user-patch-engine.spec.ts in a store: the \<open>name\<close> object at address 0
  and the \<open>emails\<close> array at address 1; utilities that recognise no path, over the store; and
  two operations of the unit tests, a replace of \<open>name.givenName\<close> and a remove with no
  path.\<close>

definition jdoeStore :: store where
  "jdoeStore =
     [0 \<mapsto> JObj [(''givenName'', JStr ''John''), (''familyName'', JStr ''Doe'')],
      1 \<mapsto> JArr [JObj [(''type'', JStr ''work''), (''value'', JStr ''jdoe@example.com''),
                         (''primary'', JBool True)]]]"

definition jdoe_st :: UserPatchState_st where
  "jdoe_st = \<lparr>s_userName = ''jdoe@example.com'', s_displayName = Some ''John Doe'',
     s_externalId = Some ''ext-001'', s_active = True,
     s_rawPayload = [(''displayName'', Val (JStr ''John Doe'')), (''name'', Ref 0), (''emails'', Ref 1)]\<rparr>"

definition plainPaths_st :: "(unit, unit) PathUtils_st" where
  "plainPaths_st =
     \<lparr>isValuePath_st = (\<lambda>p. False), parseValuePath_st = (\<lambda>p. Returned None),
      applyValuePathUpdate_st = (\<lambda>h rp vp v. (h, Returned rp)),
      addValuePathEntry_st = (\<lambda>h rp vp v. (h, Returned rp)),
      removeValuePathEntry_st = (\<lambda>h rp vp. (h, Returned rp)),
      isExtensionPath_st = (\<lambda>p. False), parseExtensionPath_st = (\<lambda>p. Returned None),
      applyExtensionUpdate_st = (\<lambda>h rp ep v. (h, Returned rp)),
      removeExtensionAttribute_st = (\<lambda>h rp ep. (h, Returned rp)),
      resolveNoPathValue_st = (\<lambda>h rp u. (h, Returned (fold (\<lambda>(k, v) acc. setOwn k (Val v) acc) u rp)))\<rparr>"

definition replaceGivenName :: PatchOperation where
  "replaceGivenName = \<lparr>p_op = Some ''replace'', p_path = Some ''name.givenName'', p_value = JStr ''Jane''\<rparr>"

definition removeNoPath :: PatchOperation where
  "removeNoPath = \<lparr>p_op = Some ''remove'', p_path = None, p_value = JUndef\<rparr>"

section \<open>Lower-casing\<close>

lemma lower_char_letters:
  "map lower_char ''ABCDEFGHIJKLMNOPQRSTUVWXYZ'' = ''abcdefghijklmnopqrstuvwxyz''"
  by simp

lemma lower_char_others:
  "map lower_char ''abcdefghijklmnopqrstuvwxyz0123456789 !#$%&()*+,-./:;<=>?@[]^_{|}~''
     = ''abcdefghijklmnopqrstuvwxyz0123456789 !#$%&()*+,-./:;<=>?@[]^_{|}~''"
  by simp

section \<open>Properties of the group PATCH engine\<close>

lemma supportedOp_lower:
  "map_option toLowerCase (p_op operation) = Some opl \<Longrightarrow>
   opl \<in> set [''add'', ''replace'', ''remove''] \<Longrightarrow> supportedOp operation = Inr opl"
  by (auto simp: supportedOp_def)

lemma groupFold_append:
  "groupFold config (xs @ ys) st =
     (case groupFold config xs st of Inl e \<Rightarrow> Inl e | Inr st' \<Rightarrow> groupFold config ys st')"
  by (induction xs arbitrary: st) (auto split: sum.splits)

text \<open>
  Claim C6. An add operation on the members (path \<open>members\<close> in any letter case, or no
  path) whose value is an array of more than one entry fails with \<open>invalidValue\<close> when
  \<open>allowMultiMemberAdd\<close> is false: \<open>handleAdd\<close> returns the failure and no member list,
  whatever the current list is, and a batch that reaches the operation fails as a whole
  with that failure. The engine works on its own copy of the list, so the caller's list
  is the one it passed in.
\<close>

theorem multi_member_add_rejected:
  assumes "map_option toLowerCase (p_op operation) = Some ''add''"
    and "lowerPath operation = None \<or> lowerPath operation = Some ''members''"
    and "p_value operation = JArr vs" and "length vs > 1"
    and "\<not> allowMultiMemberAdd config"
    and "groupFold config pre st = Inr st'"
  shows "handleAdd operation (g_members st') (allowMultiMemberAdd config)
           = Inl (PatchError 400 invalidValue)
       \<and> GroupPatchEngine_apply (pre @ operation # post) st config
           = Inl (PatchError 400 invalidValue)"
proof -
  have h: "handleAdd operation (g_members st') (allowMultiMemberAdd config)
             = Inl (PatchError 400 invalidValue)"
    using assms(2-5) by (auto simp: handleAdd_def truthy_def)
  have "supportedOp operation = Inr ''add''"
    using assms(1) by (simp add: supportedOp_lower)
  then have "groupStep config operation st' = Inl (PatchError 400 invalidValue)"
    using h by (simp add: groupStep_def)
  then show ?thesis
    using h assms(6) by (simp add: GroupPatchEngine_apply_def groupFold_append)
qed

theorem multi_member_add_rejected_witness:
  "GroupPatchEngine_apply
     [\<lparr>p_op = Some ''add'', p_path = Some ''members'',
       p_value = JArr [JObj [(''value'', JStr ''u1'')], JObj [(''value'', JStr ''u2'')]]\<rparr>]
     engineering strictConfig = Inl (PatchError 400 invalidValue)"
  using multi_member_add_rejected [of
      "\<lparr>p_op = Some ''add'', p_path = Some ''members'',
        p_value = JArr [JObj [(''value'', JStr ''u1'')], JObj [(''value'', JStr ''u2'')]]\<rparr>"
      "[JObj [(''value'', JStr ''u1'')], JObj [(''value'', JStr ''u2'')]]"
      strictConfig "[]" engineering engineering "[]"]
  by (simp add: strictConfig_def lowerPath_def toLowerCase_def)

lemma add_step_frame:
  "groupStep config operation st = Inr st' \<Longrightarrow>
   map_option toLowerCase (p_op operation) = Some ''add'' \<Longrightarrow>
   g_displayName st' = g_displayName st \<and> g_externalId st' = g_externalId st
     \<and> g_rawPayload st' = g_rawPayload st"
  by (auto simp: groupStep_def supportedOp_def split: sum.splits if_splits)

text \<open>
  Claim C10. Frame property of add: when every operation of an accepted batch is an add
  (in any letter case), the returned displayName, externalId and payload are those of the
  input state; only the member list can differ.
\<close>

theorem add_changes_members_only:
  assumes "\<forall>operation \<in> set ops. map_option toLowerCase (p_op operation) = Some ''add''"
    and "GroupPatchEngine_apply ops st config = Inr r"
  shows "gr_displayName r = g_displayName st \<and> gr_externalId r = g_externalId st
       \<and> gr_payload r = g_rawPayload st"
proof -
  have "groupFold config ops st = Inr st' \<Longrightarrow>
          g_displayName st' = g_displayName st \<and> g_externalId st' = g_externalId st
            \<and> g_rawPayload st' = g_rawPayload st" for st'
    using assms(1)
  proof (induction ops arbitrary: st)
    case Nil
    then show ?case by simp
  next
    case (Cons a ops)
    then obtain s1 where s1: "groupStep config a st = Inr s1" "groupFold config ops s1 = Inr st'"
      by (auto split: sum.splits)
    from add_step_frame[OF s1(1)] Cons.prems(2) Cons.IH[OF s1(2)] show ?case by simp
  qed
  then show ?thesis using assms(2)
    by (auto simp: GroupPatchEngine_apply_def split: sum.splits)
qed

theorem add_changes_members_only_witness:
  "GroupPatchEngine_apply
     [\<lparr>p_op = Some ''Add'', p_path = None,
       p_value = JArr [JObj [(''value'', JStr ''user-4'')]]\<rparr>] engineering strictConfig
     = Inr \<lparr>gr_displayName = ''Engineering'', gr_externalId = Some ''grp-001'', gr_payload = [],
            gr_members = [makeMember ''user-1'', makeMember ''user-2'',
                          \<lparr>m_value = JStr ''user-4'', m_display = JUndef, m_type = JUndef\<rparr>]\<rparr>
   \<and> gr_displayName (projr (GroupPatchEngine_apply
        [\<lparr>p_op = Some ''Add'', p_path = None,
          p_value = JArr [JObj [(''value'', JStr ''user-4'')]]\<rparr>] engineering strictConfig))
       = g_displayName engineering"
proof -
  have e: "GroupPatchEngine_apply
     [\<lparr>p_op = Some ''Add'', p_path = None,
       p_value = JArr [JObj [(''value'', JStr ''user-4'')]]\<rparr>] engineering strictConfig
     = Inr \<lparr>gr_displayName = ''Engineering'', gr_externalId = Some ''grp-001'', gr_payload = [],
            gr_members = [makeMember ''user-1'', makeMember ''user-2'',
                          \<lparr>m_value = JStr ''user-4'', m_display = JUndef, m_type = JUndef\<rparr>]\<rparr>"
    by (simp add: GroupPatchEngine_apply_def groupStep_def supportedOp_def handleAdd_def
        lowerPath_def toLowerCase_def truthy_def strictConfig_def engineering_def
        toMemberDto_def typeof_def hasProp_def hasOwn_def getProp_def getOwn_def
        ensureUniqueMembers_def makeMember_def sameValueZero_def)
  show ?thesis
    using e add_changes_members_only [OF _ e] by (simp add: toLowerCase_def)
qed

text \<open>
  Claim C5, at an input where the engine departs from it. A remove operation whose path
  is \<open>nickName\<close>, which names none of \<open>members\<close>, \<open>displayName\<close> and \<open>externalId\<close> and is
  no member filter, and whose value is a non-empty array, is accepted: \<open>handleRemove\<close>
  looks at the value array before it looks at the path, and removes the listed member,
  where an add or a replace with the same path fails with \<open>invalidPath\<close>.
\<close>

theorem remove_unknown_path_with_value_array:
  "GroupPatchEngine_apply
     [\<lparr>p_op = Some ''remove'', p_path = Some ''nickName'',
       p_value = JArr [JObj [(''value'', JStr ''user-1'')]]\<rparr>] engineering strictConfig
     = Inr \<lparr>gr_displayName = ''Engineering'', gr_externalId = Some ''grp-001'', gr_payload = [],
            gr_members = [makeMember ''user-2'']\<rparr>
   \<and> GroupPatchEngine_apply
       [\<lparr>p_op = Some ''add'', p_path = Some ''nickName'',
         p_value = JArr [JObj [(''value'', JStr ''user-1'')]]\<rparr>] engineering strictConfig
       = Inl (PatchError 400 invalidPath)
   \<and> GroupPatchEngine_apply
       [\<lparr>p_op = Some ''replace'', p_path = Some ''nickName'',
         p_value = JArr [JObj [(''value'', JStr ''user-1'')]]\<rparr>] engineering strictConfig
       = Inl (PatchError 400 invalidPath)"
  by (simp add: GroupPatchEngine_apply_def groupStep_def supportedOp_def handleRemove_def
      handleAdd_def handleReplace_def
      lowerPath_def toLowerCase_def truthy_def strictConfig_def engineering_def
      typeof_def hasProp_def hasOwn_def getProp_def getOwn_def makeMember_def sameValueZero_def)

section \<open>The member list has no duplicate values\<close>

lemma mapSet_keyed:
  "mapSet (m_value x) x (map (\<lambda>m. (m_value m, m)) ms) = map (\<lambda>m. (m_value m, m)) (putMember x ms)"
  by (induction ms) (auto simp: sameValueZero_def split: json.splits)

lemma fold_mapSet_keyed:
  "fold (\<lambda>m seen. mapSet (m_value m) m seen) xs (map (\<lambda>m. (m_value m, m)) ms)
     = map (\<lambda>m. (m_value m, m)) (fold putMember xs ms)"
  by (induction xs arbitrary: ms) (simp_all add: mapSet_keyed)

lemma ensureUniqueMembers_fold: "ensureUniqueMembers xs = fold putMember xs []"
  using fold_mapSet_keyed [of xs "[]"] by (simp add: ensureUniqueMembers_def comp_def)

lemma svz_eq: "sameValueZero a b \<Longrightarrow> a = b"
  by (auto simp: sameValueZero_def split: json.splits)

lemma set_putMember: "set (putMember x ms) \<subseteq> insert x (set ms)"
  by (induction ms) auto

lemma mem_putMember: "x \<in> set (putMember x ms)"
  by (induction ms) auto

lemma all_putMember:
  "list_all P ms \<Longrightarrow> P x \<Longrightarrow> list_all P (putMember x ms)"
  by (induction ms) auto

lemma noDup_putMember: "noDuplicateValues ms \<Longrightarrow> noDuplicateValues (putMember x ms)"
proof (induction ms)
  case Nil
  then show ?case by simp
next
  case (Cons m r)
  show ?case
  proof (cases "sameValueZero (m_value m) (m_value x)")
    case True
    then have "m_value m = m_value x" by (rule svz_eq)
    with Cons.prems True show ?thesis by simp
  next
    case False
    with Cons show ?thesis by (simp add: all_putMember)
  qed
qed

lemma noDup_fold: "noDuplicateValues ms \<Longrightarrow> noDuplicateValues (fold putMember xs ms)"
  by (induction xs arbitrary: ms) (simp_all add: noDup_putMember)

lemma putMember_fresh:
  "list_all (\<lambda>a. \<not> sameValueZero (m_value a) (m_value x)) acc \<Longrightarrow> putMember x acc = acc @ [x]"
  by (induction acc) auto

lemma svz_sym: "sameValueZero a b = sameValueZero b a"
  by (auto simp: sameValueZero_def split: json.splits)

lemma noDup_append:
  "noDuplicateValues (xs @ ys) =
     (noDuplicateValues xs \<and> noDuplicateValues ys
      \<and> list_all (\<lambda>a. list_all (\<lambda>b. \<not> sameValueZero (m_value a) (m_value b)) ys) xs)"
  by (induction xs) (auto simp: list_all_iff)

lemma fold_putMember_noDup:
  "noDuplicateValues (acc @ ms) \<Longrightarrow> fold putMember ms acc = acc @ ms"
proof (induction ms arbitrary: acc)
  case Nil
  then show ?case by simp
next
  case (Cons m ms)
  from Cons.prems have fresh: "list_all (\<lambda>a. \<not> sameValueZero (m_value a) (m_value m)) acc"
    by (auto simp: noDup_append list_all_iff)
  have "noDuplicateValues ((acc @ [m]) @ ms)" using Cons.prems by simp
  from Cons.IH[OF this] fresh show ?case by (simp add: putMember_fresh)
qed

lemma ensureUnique_noDup: "noDuplicateValues ms \<Longrightarrow> ensureUniqueMembers ms = ms"
  using fold_putMember_noDup [of "[]" ms] by (simp add: ensureUniqueMembers_fold)

lemma noDup_ensureUnique: "noDuplicateValues (ensureUniqueMembers xs)"
  by (simp add: ensureUniqueMembers_fold noDup_fold)

lemma ensureUnique_append:
  "ensureUniqueMembers (ensureUniqueMembers xs @ ys) = ensureUniqueMembers (xs @ ys)"
proof -
  have "fold putMember (ensureUniqueMembers xs) [] = ensureUniqueMembers xs"
    using ensureUnique_noDup [OF noDup_ensureUnique] by (simp add: ensureUniqueMembers_fold)
  then show ?thesis by (simp add: ensureUniqueMembers_fold)
qed

lemma stays_fold:
  "a \<in> set L \<Longrightarrow> \<forall>y \<in> set xs. m_value y \<noteq> m_value a \<Longrightarrow> a \<in> set (fold putMember xs L)"
proof (induction xs arbitrary: L)
  case Nil
  then show ?case by simp
next
  case (Cons y xs)
  have "a \<in> set (putMember y L)" using Cons.prems
  proof (induction L)
    case Nil
    then show ?case by simp
  next
    case (Cons m r)
    then show ?case by (auto dest: svz_eq)
  qed
  with Cons show ?case by simp
qed

lemma last_wins_fold:
  "\<exists>x \<in> set xs. m_value x = v \<Longrightarrow>
   last (filter (\<lambda>y. m_value y = v) xs) \<in> set (fold putMember xs ms)"
proof (induction xs arbitrary: ms)
  case Nil
  then show ?case by simp
next
  case (Cons a xs)
  show ?case
  proof (cases "\<exists>y \<in> set xs. m_value y = v")
    case True
    then have ne: "filter (\<lambda>y. m_value y = v) xs \<noteq> []"
      by (auto simp: filter_empty_conv)
    from Cons.IH[OF True, of "putMember a ms"] ne show ?thesis by simp
  next
    case False
    with Cons.prems have xa: "m_value a = v" by auto
    from False have emp: "filter (\<lambda>y. m_value y = v) xs = []"
      by (auto simp: filter_empty_conv)
    have "a \<in> set (fold putMember xs (putMember a ms))"
      using False xa by (intro stays_fold mem_putMember) auto
    with xa emp show ?thesis by simp
  qed
qed

lemma add_step_members:
  assumes "groupStep cfg operation st = Inr st1"
    and "map_option toLowerCase (p_op operation) = Some ''add''"
    and "g_members st = S \<or> g_members st = ensureUniqueMembers S"
  shows "g_members st1 = ensureUniqueMembers (suppliedBy operation S)"
proof -
  let ?val = "case p_value operation of JArr vs \<Rightarrow> vs | v \<Rightarrow> [v]"
  have "supportedOp operation = Inr ''add''"
    using assms(2) by (simp add: supportedOp_lower)
  with assms(1) obtain ms where ms: "handleAdd operation (g_members st) (allowMultiMemberAdd cfg) = Inr ms"
    "g_members st1 = ms"
    by (auto simp: groupStep_def split: sum.splits)
  from ms(1) obtain new where new: "mapE toMemberDto ?val = Inr new"
    "ms = ensureUniqueMembers (g_members st @ new)"
    by (auto simp: handleAdd_def Let_def split: if_splits sum.splits)
  have "suppliedBy operation S = S @ new"
    using assms(2) new(1) by (simp add: suppliedBy_def incomingMembers_def)
  with assms(3) ms(2) new(2) show ?thesis
    by (auto simp: ensureUnique_append)
qed

lemma handleReplaceNoPath_object:
  "typeof v = ''object'' \<Longrightarrow> v \<noteq> JNull \<Longrightarrow> handleReplaceNoPath v st =
     (case (case getProp v ''members'' of
              JArr ms \<Rightarrow>
                (case mapE toMemberDto ms of
                   Inl e \<Rightarrow> Inl e | Inr ds \<Rightarrow> Inr (ensureUniqueMembers ds))
            | _ \<Rightarrow> Inr (g_members st)) of
        Inl e \<Rightarrow> Inl e
      | Inr ms \<Rightarrow>
          Inr \<lparr>g_displayName =
                 (case getProp v ''displayName'' of JStr s \<Rightarrow> s | _ \<Rightarrow> g_displayName st),
               g_externalId =
                 (if hasProp ''externalId'' v
                  then (case getProp v ''externalId'' of JStr s \<Rightarrow> Some s | _ \<Rightarrow> None)
                  else g_externalId st),
               g_members = ms,
               g_rawPayload =
                 fold (\<lambda>(key, val) up.
                         if key \<noteq> ''displayName'' \<and> key \<noteq> ''externalId''
                            \<and> key \<noteq> ''members'' \<and> key \<noteq> ''schemas''
                         then setOwn key val up else up)
                      (entries v) (g_rawPayload st)\<rparr>)"
  by (cases v; hypsubst_thin) (simp_all add: handleReplaceNoPath_def typeof_def Let_def)

lemma handleReplaceNoPath_other:
  "typeof v \<noteq> ''object'' \<or> v = JNull \<Longrightarrow> handleReplaceNoPath v st =
     (case v of JStr s \<Rightarrow> Inr (st\<lparr>g_displayName := s\<rparr>) | _ \<Rightarrow> Inl (PatchError 400 invalidValue))"
  by (cases v) (simp_all add: handleReplaceNoPath_def typeof_def)

lemma getProp_members_prim:
  "typeof v \<noteq> ''object'' \<or> v = JNull \<Longrightarrow> getProp v ''members'' = JUndef"
  by (cases v) (simp_all add: typeof_def getProp_def)

lemma noPath_members:
  assumes "handleReplaceNoPath v st = Inr st1"
  shows "(case getProp v ''members'' of
            JArr vs \<Rightarrow> g_members st1 = ensureUniqueMembers (incomingMembers vs)
          | _ \<Rightarrow> g_members st1 = g_members st)"
proof (cases "typeof v = ''object'' \<and> v \<noteq> JNull")
  case True
  then have eq: "handleReplaceNoPath v st = Inr st1" "typeof v = ''object''" "v \<noteq> JNull"
    using assms by simp_all
  show ?thesis
  proof (cases "getProp v ''members''")
    case (JArr ms)
    with eq(1) handleReplaceNoPath_object[OF eq(2,3), of st] show ?thesis
      by (cases "mapE toMemberDto ms") (auto simp: incomingMembers_def)
  qed (use eq(1) handleReplaceNoPath_object[OF eq(2,3), of st] in auto)
next
  case False
  then have f: "typeof v \<noteq> ''object'' \<or> v = JNull" by blast
  from assms handleReplaceNoPath_other[OF f, of st] getProp_members_prim[OF f]
  show ?thesis by (cases v) auto
qed

lemma replace_step_members:
  assumes "groupStep cfg operation st = Inr st1"
    and "map_option toLowerCase (p_op operation) = Some ''replace''"
  shows "(case replacementMembers operation of
            Some vs \<Rightarrow> g_members st1 = ensureUniqueMembers (incomingMembers vs)
          | None \<Rightarrow> g_members st1 = g_members st)"
proof -
  have "supportedOp operation = Inr ''replace''"
    using assms(2) by (simp add: supportedOp_lower)
  with assms(1) have h: "handleReplace operation st = Inr st1"
    by (simp add: groupStep_def)
  show ?thesis
  proof (cases "lowerPath operation = None \<or> lowerPath operation = Some []")
    case True
    then have np: "handleReplaceNoPath (p_value operation) st = Inr st1"
      using h by (auto simp: handleReplace_def)
    have rm: "replacementMembers operation =
        (case getProp (p_value operation) ''members'' of JArr vs \<Rightarrow> Some vs | _ \<Rightarrow> None)"
      using True by (auto simp: replacementMembers_def)
    from noPath_members[OF np] rm show ?thesis
      by (cases "getProp (p_value operation) ''members''") simp_all
  next
    case False
    then obtain path where path: "lowerPath operation = Some path" "path \<noteq> []" by auto
    show ?thesis
    proof (cases "path = ''members''")
      case True
      with path h show ?thesis
        by (cases "p_value operation")
           (auto simp: handleReplace_def replacementMembers_def incomingMembers_def
            split: sum.splits)
    next
      case False
      with path h show ?thesis
        by (cases "p_value operation")
           (auto simp: handleReplace_def replacementMembers_def split: if_splits)
    qed
  qed
qed

lemma step_members:
  assumes "groupStep cfg operation st = Inr st1" and "isAddOrReplace operation"
  shows "(rewritesMembers operation \<longrightarrow> (g_members st = S \<or> g_members st = ensureUniqueMembers S)
            \<longrightarrow> g_members st1 = ensureUniqueMembers (suppliedBy operation S))
       \<and> (\<not> rewritesMembers operation \<longrightarrow> g_members st1 = g_members st \<and> suppliedBy operation S = S)"
proof (cases "map_option toLowerCase (p_op operation) = Some ''add''")
  case True
  with add_step_members[OF assms(1) True] show ?thesis by (simp add: rewritesMembers_def)
next
  case False
  with assms(2) have r: "map_option toLowerCase (p_op operation) = Some ''replace''"
    unfolding isAddOrReplace_def by blast
  from replace_step_members[OF assms(1) r] False r show ?thesis
    by (auto simp: rewritesMembers_def suppliedBy_def split: option.splits)
qed

lemma fold_members_unique:
  "groupFold cfg ops st = Inr st' \<Longrightarrow> list_all isAddOrReplace ops \<Longrightarrow>
   g_members st = ensureUniqueMembers S \<Longrightarrow>
   g_members st' = ensureUniqueMembers (suppliedEntries ops S)"
proof (induction ops arbitrary: st S)
  case Nil
  then show ?case by (simp add: suppliedEntries_def)
next
  case (Cons a ops)
  then obtain s1 where s1: "groupStep cfg a st = Inr s1" "groupFold cfg ops s1 = Inr st'"
    by (auto split: sum.splits)
  from Cons.prems(2) have ar: "isAddOrReplace a" "list_all isAddOrReplace ops" by simp_all
  have "g_members s1 = ensureUniqueMembers (suppliedBy a S)"
    using step_members[OF s1(1) ar(1), of S] Cons.prems(3) by (cases "rewritesMembers a") auto
  from Cons.IH[OF s1(2) ar(2) this] show ?case by (simp add: suppliedEntries_def)
qed

lemma fold_members_rewritten:
  "groupFold cfg ops st = Inr st' \<Longrightarrow> list_all isAddOrReplace ops \<Longrightarrow>
   list_ex rewritesMembers ops \<Longrightarrow>
   g_members st' = ensureUniqueMembers (suppliedEntries ops (g_members st))"
proof (induction ops arbitrary: st)
  case Nil
  then show ?case by simp
next
  case (Cons a ops)
  then obtain s1 where s1: "groupStep cfg a st = Inr s1" "groupFold cfg ops s1 = Inr st'"
    by (auto split: sum.splits)
  from Cons.prems(2) have ar: "isAddOrReplace a" "list_all isAddOrReplace ops" by simp_all
  show ?case
  proof (cases "rewritesMembers a")
    case True
    then have "g_members s1 = ensureUniqueMembers (suppliedBy a (g_members st))"
      using step_members[OF s1(1) ar(1), of "g_members st"] by simp
    from fold_members_unique[OF s1(2) ar(2) this] show ?thesis by (simp add: suppliedEntries_def)
  next
    case False
    then have same: "g_members s1 = g_members st" "suppliedBy a (g_members st) = g_members st"
      using step_members[OF s1(1) ar(1), of "g_members st"] by simp_all
    from False Cons.prems(3) have "list_ex rewritesMembers ops" by simp
    from Cons.IH[OF s1(2) ar(2) this] same show ?thesis by (simp add: suppliedEntries_def)
  qed
qed

text \<open>
  Claim C4, as the code has it. For a batch of add and replace operations that the engine
  accepts, if the member list of the input state has no duplicate values, or at least one
  operation rewrites the member list (an add, or a replace that carries a member array),
  then the returned list has no two entries with the same \<open>value\<close>; it is the
  deduplication of the entries supplied in order, and for every supplied entry the last
  supplied entry with that \<open>value\<close> is in the returned list, so its display and type are
  the ones kept.
\<close>

theorem member_values_unique_last_wins:
  assumes "list_all isAddOrReplace ops"
    and "GroupPatchEngine_apply ops st config = Inr r"
    and "noDuplicateValues (g_members st) \<or> list_ex rewritesMembers ops"
  shows "noDuplicateValues (gr_members r)
       \<and> gr_members r = ensureUniqueMembers (suppliedEntries ops (g_members st))
       \<and> (\<forall>x \<in> set (suppliedEntries ops (g_members st)).
            last (filter (\<lambda>y. m_value y = m_value x) (suppliedEntries ops (g_members st)))
              \<in> set (gr_members r))"
proof -
  from assms(2) obtain st' where st': "groupFold config ops st = Inr st'" "gr_members r = g_members st'"
    by (auto simp: GroupPatchEngine_apply_def split: sum.splits)
  have eq: "g_members st' = ensureUniqueMembers (suppliedEntries ops (g_members st))"
  proof (cases "list_ex rewritesMembers ops")
    case True
    from fold_members_rewritten[OF st'(1) assms(1) True] show ?thesis .
  next
    case False
    with assms(3) have "g_members st = ensureUniqueMembers (g_members st)"
      by (simp add: ensureUnique_noDup)
    from fold_members_unique[OF st'(1) assms(1) this] show ?thesis .
  qed
  have nd: "noDuplicateValues (gr_members r)"
    using eq st'(2) by (simp add: noDup_ensureUnique)
  have lw: "last (filter (\<lambda>y. m_value y = m_value x) (suppliedEntries ops (g_members st)))
              \<in> set (gr_members r)"
    if "x \<in> set (suppliedEntries ops (g_members st))" for x
    using that eq st'(2) last_wins_fold[of "suppliedEntries ops (g_members st)" "m_value x" "[]"]
    by (auto simp: ensureUniqueMembers_fold)
  from nd lw eq st'(2) show ?thesis by simp
qed

text \<open>The unit test of \<open>ensureUniqueMembers\<close>, through an add of three entries.\<close>

theorem member_values_unique_last_wins_witness:
  "GroupPatchEngine_apply [keepLastAdd] engineering defaultGroupConfig
     = Inr \<lparr>gr_displayName = ''Engineering'', gr_externalId = Some ''grp-001'', gr_payload = [],
            gr_members = [makeMember ''user-1'', makeMember ''user-2'',
              \<lparr>m_value = JStr ''a'', m_display = JStr ''Second'', m_type = JUndef\<rparr>,
              \<lparr>m_value = JStr ''b'', m_display = JUndef, m_type = JUndef\<rparr>]\<rparr>
   \<and> noDuplicateValues (gr_members (projr
         (GroupPatchEngine_apply [keepLastAdd] engineering defaultGroupConfig)))"
proof -
  let ?R = "\<lparr>gr_displayName = ''Engineering'', gr_externalId = Some ''grp-001'', gr_payload = [],
            gr_members = [makeMember ''user-1'', makeMember ''user-2'',
              \<lparr>m_value = JStr ''a'', m_display = JStr ''Second'', m_type = JUndef\<rparr>,
              \<lparr>m_value = JStr ''b'', m_display = JUndef, m_type = JUndef\<rparr>]\<rparr>"
  have e: "GroupPatchEngine_apply [keepLastAdd] engineering defaultGroupConfig = Inr ?R"
    by (simp add: GroupPatchEngine_apply_def groupStep_def supportedOp_def handleAdd_def
        lowerPath_def toLowerCase_def truthy_def defaultGroupConfig_def
        engineering_def keepLastAdd_def toMemberDto_def typeof_def hasProp_def hasOwn_def
        getProp_def getOwn_def ensureUniqueMembers_def makeMember_def sameValueZero_def)
  have a: "list_all isAddOrReplace [keepLastAdd]"
    by (simp add: isAddOrReplace_def keepLastAdd_def toLowerCase_def)
  have w: "list_ex rewritesMembers [keepLastAdd]"
    by (simp add: rewritesMembers_def keepLastAdd_def toLowerCase_def)
  have nd: "noDuplicateValues (gr_members ?R)"
    using member_values_unique_last_wins [OF a e disjI2 [OF w]] by (rule conjunct1)
  show ?thesis
    by (rule conjI, rule e, subst e, simp only: sum.sel, rule nd)
qed

text \<open>
  Claim C4 as stated fails: a replace of \<open>displayName\<close> is an accepted replace operation
  and leaves a member list with a repeated value as it is.
\<close>

theorem member_duplicates_survive_counterexample:
  "\<not> (\<forall>ops st config r. list_all isAddOrReplace ops
         \<longrightarrow> GroupPatchEngine_apply ops st config = Inr r
         \<longrightarrow> noDuplicateValues (gr_members r))"
proof
  assume h: "\<forall>ops st config r. list_all isAddOrReplace ops
         \<longrightarrow> GroupPatchEngine_apply ops st config = Inr r
         \<longrightarrow> noDuplicateValues (gr_members r)"
  have e: "GroupPatchEngine_apply [renameToSales] duplicated strictConfig
     = Inr \<lparr>gr_displayName = ''Sales'', gr_externalId = None, gr_payload = [],
            gr_members = [makeMember ''user-1'', makeMember ''user-1'']\<rparr>"
    by (simp add: GroupPatchEngine_apply_def groupStep_def supportedOp_def handleReplace_def
        lowerPath_def toLowerCase_def renameToSales_def duplicated_def)
  have a: "list_all isAddOrReplace [renameToSales]"
    by (simp add: isAddOrReplace_def renameToSales_def toLowerCase_def)
  from h a e have "noDuplicateValues [makeMember ''user-1'', makeMember ''user-1'']"
    by fastforce
  then show False by (simp add: makeMember_def sameValueZero_def)
qed

section \<open>Properties of the user PATCH engine, and idempotence of replace\<close>

lemma decimal_digits: "set (decimal n) \<subseteq> set ''0123456789''"
proof (induction n rule: decimal.induct)
  case (1 n)
  have d: "''0123456789'' ! k \<in> set ''0123456789''" if "k < 10" for k
    using that by (intro nth_mem) simp
  show ?case
  proof (cases "n < 10")
    case True
    then show ?thesis using d[of n] by (subst decimal.simps) simp
  next
    case False
    then show ?thesis using 1 d[of "n mod 10"]
      by (subst decimal.simps) simp
  qed
qed

lemma decimal_not_active: "decimal n \<noteq> ''active''"
proof
  assume "decimal n = ''active''"
  then have "CHR ''a'' \<in> set (decimal n)" by simp
  with decimal_digits[of n] show False by auto
qed

lemma hasOwn_iff: "hasOwn k ob \<longleftrightarrow> k \<in> fst ` set ob"
  by (simp add: hasOwn_def map_of_eq_None_iff)

lemma array_no_active: "\<not> hasProp ''active'' (JArr xs)"
proof -
  have "''active'' \<notin> set (map decimal [0..<length xs])"
    using decimal_not_active by (auto simp: image_iff) metis
  then have "''active'' \<notin> fst ` set (arrayEntries xs)"
    by (simp add: arrayEntries_def set_map [symmetric] del: set_map)
  then show ?thesis by (simp add: hasProp_def hasOwn_iff)
qed

lemma booleanOfString_boolLike: "booleanOfString s = boolLike (JStr s)"
  by (simp add: booleanOfString_def boolLike_def Let_def)

lemma extractBooleanValue_accepted:
  "extractBooleanValue v =
     (case acceptedActive v of
        Some b \<Rightarrow> Inr b
      | None \<Rightarrow> if stringThrows v then Inl TypeErrorThrown
                else Inl (Thrown (PatchError 400 invalidValue)))"
proof (cases v)
  case (JArr xs)
  then show ?thesis using array_no_active[of xs]
    by (simp add: extractBooleanValue_def acceptedActive_def boolLike_def typeof_def)
next
  case (JObj ob)
  then show ?thesis
    by (auto simp: extractBooleanValue_def acceptedActive_def boolLike_def typeof_def hasProp_def
        getProp_def booleanOfString_def Let_def split: json.splits option.splits)
qed (auto simp: extractBooleanValue_def acceptedActive_def boolLike_def typeof_def
      booleanOfString_def Let_def split: option.splits)

text \<open>
  An add or a replace (the operation token and the path in any letter case) on the path
  \<open>active\<close> succeeds exactly when the value is accepted for \<open>active\<close>: a boolean, one of
  the strings \<open>true\<close> and \<open>false\<close> in any letter case, or an object whose \<open>active\<close>
  property is one of these. The extracted field \<open>active\<close> is then the coerced boolean and
  the other fields are those of the state. Any other value fails: with \<open>invalidValue\<close> when
  the value can be converted to a string for the message of the error, with a \<open>TypeError\<close>
  when it cannot. In particular a replace of \<open>active\<close> by the string \<open>False\<close> yields
  \<open>active = false\<close>.
\<close>

theorem active_coercion:
  assumes "map_option toLowerCase (p_op operation) = Some ''add''
           \<or> map_option toLowerCase (p_op operation) = Some ''replace''"
    and "map_option toLowerCase (p_path operation) = Some ''active''"
  shows "UserPatchEngine_apply U [operation] st config =
           (case acceptedActive (p_value operation) of
              Some b \<Rightarrow>
                Inr \<lparr>payload = stripReservedAttributes (setOwn ''active'' (JBool b) (u_rawPayload st)),
                     extractedFields = \<lparr>x_userName = u_userName st, x_displayName = u_displayName st,
                       x_externalId = u_externalId st, x_active = b\<rparr>\<rparr>
            | None \<Rightarrow> if stringThrows (p_value operation) then Inl TypeErrorThrown
                else Inl (Thrown (PatchError 400 invalidValue)))
       \<and> x_active (extractedFields (projr (UserPatchEngine_apply U
            [\<lparr>p_op = Some ''replace'', p_path = Some ''active'', p_value = JStr ''False''\<rparr>]
            st config))) = False"
proof -
  have step: "userStep U config operation st =
       (case acceptedActive (p_value operation) of
          Some b \<Rightarrow> Inr (st\<lparr>u_active := b, u_rawPayload := setOwn ''active'' (JBool b) (u_rawPayload st)\<rparr>)
        | None \<Rightarrow> if stringThrows (p_value operation) then Inl TypeErrorThrown
                else Inl (Thrown (PatchError 400 invalidValue)))"
    if "map_option toLowerCase (p_op operation) = Some ''add''
           \<or> map_option toLowerCase (p_op operation) = Some ''replace''"
      "map_option toLowerCase (p_path operation) = Some ''active''" for operation
  proof -
    from that(1) obtain opl where opl: "supportedOp operation = Inr opl" "opl = ''add'' \<or> opl = ''replace''"
      by (auto simp: supportedOp_def)
    then show ?thesis using that(2)
      by (auto simp: userStep_def applyAddOrReplace_def Let_def extractBooleanValue_accepted
          split: option.splits)
  qed
  have gen: "UserPatchEngine_apply U [operation] st config =
           (case acceptedActive (p_value operation) of
              Some b \<Rightarrow>
                Inr \<lparr>payload = stripReservedAttributes (setOwn ''active'' (JBool b) (u_rawPayload st)),
                     extractedFields = \<lparr>x_userName = u_userName st, x_displayName = u_displayName st,
                       x_externalId = u_externalId st, x_active = b\<rparr>\<rparr>
            | None \<Rightarrow> if stringThrows (p_value operation) then Inl TypeErrorThrown
                else Inl (Thrown (PatchError 400 invalidValue)))"
    if "map_option toLowerCase (p_op operation) = Some ''add''
           \<or> map_option toLowerCase (p_op operation) = Some ''replace''"
      "map_option toLowerCase (p_path operation) = Some ''active''" for operation
    using step[OF that] by (simp add: UserPatchEngine_apply_def split: option.splits)
  have "acceptedActive (JStr ''False'') = Some False"
    by (simp add: acceptedActive_def boolLike_def toLowerCase_def)
  then have "x_active (extractedFields (projr (UserPatchEngine_apply U
            [\<lparr>p_op = Some ''replace'', p_path = Some ''active'', p_value = JStr ''False''\<rparr>]
            st config))) = False"
    by (subst gen) (simp_all add: toLowerCase_def)
  with gen[OF assms] show ?thesis by simp
qed

text \<open>
  Claim C7, at an input where the engine departs from it. The value of the replace is an
  object with a property \<open>toString\<close>; it is not a value accepted for \<open>active\<close>, and the call
  does not fail with \<open>invalidValue\<close>: the message of that error contains \<open>String(value)\<close>,
  whose conversion throws a \<open>TypeError\<close> before the error is constructed. This holds in
  every state, under every configuration and with any path utilities.
\<close>

theorem active_value_raw_type_error:
  "acceptedActive (p_value replaceActiveOdd) = None
   \<and> UserPatchEngine_apply U [replaceActiveOdd] st config = Inl TypeErrorThrown"
  by (simp add: UserPatchEngine_apply_def userStep_def supportedOp_def replaceActiveOdd_def
      applyAddOrReplace_def toLowerCase_def extractBooleanValue_def acceptedActive_def
      boolLike_def typeof_def hasProp_def hasOwn_def getProp_def getOwn_def)

lemma map_fst_setOwn:
  "map fst (setOwn k v ob) = (if k \<in> fst ` set ob then map fst ob else map fst ob @ [k])"
  by (induction ob) (force simp: image_iff)+

lemma keys_setOwn: "fst ` set (setOwn k v ob) = insert k (fst ` set ob)"
proof -
  have "set (map fst (setOwn k v ob)) = insert k (set (map fst ob))"
    by (subst map_fst_setOwn) auto
  then show ?thesis by simp
qed

lemma keys_fromEntries_gen:
  "fst ` set (fold (\<lambda>(k, v) acc. setOwn k v acc) es acc) = fst ` set es \<union> fst ` set acc"
proof (induction es arbitrary: acc)
  case Nil
  then show ?case by simp
next
  case (Cons e es)
  obtain k v where e: "e = (k, v)" by (cases e)
  show ?case using Cons[of "setOwn k v acc"] by (simp add: e keys_setOwn Un_ac)
qed

lemma keys_fromEntries: "fst ` set (fromEntries es) = fst ` set es"
  by (simp add: fromEntries_def keys_fromEntries_gen)

lemma strip_keys:
  "k \<in> fst ` set (stripReservedAttributes pl) \<Longrightarrow>
     k \<notin> set RESERVED_ATTRIBUTES \<and> toLowerCase k \<notin> set RESERVED_ATTRIBUTES"
  by (auto simp: stripReservedAttributes_def keys_fromEntries)

text \<open>
  Claim C8. Whatever the operations and the path utilities do, the payload of a successful
  \<open>apply\<close> has no key that equals \<open>id\<close>, \<open>userName\<close>, \<open>externalId\<close> or \<open>active\<close> up to
  letter case.
\<close>

theorem reserved_keys_stripped:
  assumes "UserPatchEngine_apply U ops st config = Inr r"
  shows "\<forall>k \<in> fst ` set (payload r).
           toLowerCase k \<noteq> toLowerCase ''id'' \<and> toLowerCase k \<noteq> toLowerCase ''userName''
         \<and> toLowerCase k \<noteq> toLowerCase ''externalId'' \<and> toLowerCase k \<noteq> toLowerCase ''active''"
proof
  fix k assume k: "k \<in> fst ` set (payload r)"
  from assms obtain st' :: UserPatchState
    where "payload r = stripReservedAttributes (u_rawPayload st')"
    by (auto simp: UserPatchEngine_apply_def split: sum.splits)
  with k strip_keys have "toLowerCase k \<notin> set RESERVED_ATTRIBUTES" by metis
  then show "toLowerCase k \<noteq> toLowerCase ''id'' \<and> toLowerCase k \<noteq> toLowerCase ''userName''
         \<and> toLowerCase k \<noteq> toLowerCase ''externalId'' \<and> toLowerCase k \<noteq> toLowerCase ''active''"
    by (simp add: RESERVED_ATTRIBUTES_def toLowerCase_def)
qed

lemma reserved_lower: "k \<in> set RESERVED_ATTRIBUTES \<Longrightarrow> toLowerCase k \<in> set RESERVED_ATTRIBUTES"
  by (auto simp: RESERVED_ATTRIBUTES_def toLowerCase_def)

lemma nonReserved_iff: "nonReserved k \<longleftrightarrow> toLowerCase k \<notin> set RESERVED_ATTRIBUTES"
  using reserved_lower by (auto simp: nonReserved_def)

lemma strip_alt: "stripReservedAttributes pl = fromEntries (filter (\<lambda>e. nonReserved (fst e)) pl)"
  by (simp add: stripReservedAttributes_def nonReserved_def case_prod_unfold)

lemma setOwn_fresh: "k \<notin> fst ` set ob \<Longrightarrow> setOwn k v ob = ob @ [(k, v)]"
  by (induction ob) auto

lemma setOwn_same: "map_of ob k = Some v \<Longrightarrow> setOwn k v ob = ob"
  by (induction ob) (auto split: if_splits)

lemma setOwn_twice: "setOwn k v (setOwn k w ob) = setOwn k v ob"
  by (induction ob) auto

lemma map_of_setOwn: "map_of (setOwn k v ob) k = Some v"
  by (induction ob) auto

lemma distinct_setOwn: "distinct (map fst ob) \<Longrightarrow> distinct (map fst (setOwn k v ob))"
  by (simp add: map_fst_setOwn)

lemma fold_setOwn_distinct:
  "distinct (map fst (acc @ es)) \<Longrightarrow> fold (\<lambda>(k, v) a. setOwn k v a) es acc = acc @ es"
proof (induction es arbitrary: acc)
  case Nil
  then show ?case by simp
next
  case (Cons e es)
  obtain k v where e: "e = (k, v)" by (cases e)
  from Cons.prems have fresh: "k \<notin> fst ` set acc" by (auto simp: e)
  have "distinct (map fst ((acc @ [(k, v)]) @ es))" using Cons.prems by (simp add: e)
  from Cons.IH[OF this] show ?case by (simp add: e setOwn_fresh[OF fresh])
qed

lemma fromEntries_distinct: "distinct (map fst es) \<Longrightarrow> fromEntries es = es"
  using fold_setOwn_distinct[of "[]" es] by (simp add: fromEntries_def)

lemma distinct_fold_setOwn:
  "distinct (map fst acc) \<Longrightarrow> distinct (map fst (fold (\<lambda>(k, v) a. setOwn k v a) es acc))"
  by (induction es arbitrary: acc) (auto simp: distinct_setOwn)

lemma distinct_fromEntries: "distinct (map fst (fromEntries es))"
  by (simp add: fromEntries_def distinct_fold_setOwn)

lemma distinct_strip: "distinct (map fst (stripReservedAttributes pl))"
  by (simp add: strip_alt distinct_fromEntries)

lemma strip_distinct:
  "distinct (map fst pl) \<Longrightarrow> stripReservedAttributes pl = filter (\<lambda>e. nonReserved (fst e)) pl"
  by (simp add: strip_alt fromEntries_distinct distinct_map_filter)

lemma strip_keys_nonReserved: "k \<in> fst ` set (stripReservedAttributes pl) \<Longrightarrow> nonReserved k"
  using strip_keys by (simp add: nonReserved_def)

lemma strip_strip: "stripReservedAttributes (stripReservedAttributes pl) = stripReservedAttributes pl"
proof -
  let ?q = "stripReservedAttributes pl"
  have "filter (\<lambda>e. nonReserved (fst e)) ?q = ?q"
    using strip_keys_nonReserved[of _ pl] by (intro filter_True) auto
  then show ?thesis
    using strip_distinct[OF distinct_strip, of pl] by simp
qed

lemma filter_setOwn_reserved:
  "\<not> nonReserved k \<Longrightarrow>
     filter (\<lambda>e. nonReserved (fst e)) (setOwn k v ob) = filter (\<lambda>e. nonReserved (fst e)) ob"
  by (induction ob) auto

lemma strip_setOwn_reserved:
  "\<not> nonReserved k \<Longrightarrow> stripReservedAttributes (setOwn k v ob) = stripReservedAttributes ob"
  by (simp add: strip_alt filter_setOwn_reserved)

lemma map_of_filter_key:
  "P k \<Longrightarrow> map_of (filter (\<lambda>e. P (fst e)) ob) k = map_of ob k"
  by (induction ob) auto

lemma setOwn_strip_nonReserved:
  assumes "distinct (map fst ob)" and "nonReserved k"
  shows "setOwn k v (stripReservedAttributes (setOwn k v ob)) = stripReservedAttributes (setOwn k v ob)"
proof -
  have "map_of (stripReservedAttributes (setOwn k v ob)) k = Some v"
    using assms by (simp add: strip_distinct distinct_setOwn map_of_filter_key map_of_setOwn)
  then show ?thesis by (rule setOwn_same)
qed

text \<open>Writing a key twice, with reserved-key stripping in between, is writing it once.\<close>

lemma strip_setOwn_again:
  assumes "distinct (map fst ob)"
  shows "stripReservedAttributes (setOwn k v (stripReservedAttributes (setOwn k v ob)))
           = stripReservedAttributes (setOwn k v ob)"
proof (cases "nonReserved k")
  case True
  with setOwn_strip_nonReserved[OF assms True] show ?thesis by (simp add: strip_strip)
next
  case False
  then show ?thesis by (simp add: strip_setOwn_reserved strip_strip)
qed

lemma find_filter:
  "(\<And>x. P x \<Longrightarrow> Q x) \<Longrightarrow> find P (filter Q xs) = find P xs"
  by (induction xs) auto

lemma getOwn_setOwn: "getOwn (setOwn k v ob) k = v"
  by (simp add: getOwn_def map_of_setOwn)

lemma find_append2:
  "find P (xs @ ys) = (case find P xs of None \<Rightarrow> find P ys | Some x \<Rightarrow> Some x)"
  by (induction xs) auto

lemma parentKeyOf_lower: "toLowerCase (parentKeyOf rp pa) = toLowerCase pa"
  by (auto simp: parentKeyOf_def find_Some_iff split: option.splits)

lemma parentKeyOf_keys:
  "map fst rp' = map fst rp \<Longrightarrow> parentKeyOf rp' pa = parentKeyOf rp pa"
  by (simp add: parentKeyOf_def)

lemma parentKeyOf_setOwn:
  "parentKeyOf (setOwn (parentKeyOf rp pa) w rp) pa = parentKeyOf rp pa"
proof (cases "parentKeyOf rp pa \<in> fst ` set rp")
  case True
  then have "map fst (setOwn (parentKeyOf rp pa) w rp) = map fst rp"
    by (simp add: map_fst_setOwn)
  then show ?thesis by (rule parentKeyOf_keys)
next
  case False
  have none: "find (\<lambda>k. toLowerCase k = toLowerCase pa) (map fst rp) = None"
  proof (cases "find (\<lambda>k. toLowerCase k = toLowerCase pa) (map fst rp)")
    case None
    then show ?thesis .
  next
    case (Some k)
    then have "k \<in> set (map fst rp)" by (auto simp: find_Some_iff)
    moreover have "parentKeyOf rp pa = k" using Some by (simp add: parentKeyOf_def)
    ultimately show ?thesis using False by simp
  qed
  then have pk: "parentKeyOf rp pa = pa" by (simp add: parentKeyOf_def)
  have "map fst (setOwn pa w rp) = map fst rp @ [pa]"
    using False pk by (simp add: map_fst_setOwn)
  then have "parentKeyOf (setOwn pa w rp) pa = pa"
    using none by (simp add: parentKeyOf_def find_append2)
  then show ?thesis by (simp add: pk)
qed

lemma applyDotNotation_shape:
  "\<exists>o1. applyDotNotation rp p v = setOwn (parentKeyOf rp (takeWhile (\<lambda>c. c \<noteq> CHR ''.'') p)) (JObj o1) rp
        \<and> setOwn (drop (Suc (length (takeWhile (\<lambda>c. c \<noteq> CHR ''.'') p))) p) v o1 = o1"
  by (auto simp: applyDotNotation_def Let_def setOwn_twice split: json.splits)

lemma dot_again:
  assumes "distinct (map fst rp)"
  shows "stripReservedAttributes (applyDotNotation (stripReservedAttributes (applyDotNotation rp p v)) p v)
           = stripReservedAttributes (applyDotNotation rp p v)"
proof -
  let ?pa = "takeWhile (\<lambda>c. c \<noteq> CHR ''.'') p"
  let ?ch = "drop (Suc (length ?pa)) p"
  let ?pk = "parentKeyOf rp ?pa"
  let ?P = "\<lambda>k. toLowerCase k = toLowerCase ?pa"
  from applyDotNotation_shape[of rp p v] obtain o1 where
    X: "applyDotNotation rp p v = setOwn ?pk (JObj o1) rp" and o1: "setOwn ?ch v o1 = o1"
    by blast
  let ?X = "setOwn ?pk (JObj o1) rp"
  have nr_eq: "nonReserved k = nonReserved ?pa" if "?P k" for k
    using that by (simp add: nonReserved_iff)
  show ?thesis
  proof (cases "nonReserved ?pa")
    case False
    then have npk: "\<not> nonReserved ?pk" using nr_eq[of ?pk] parentKeyOf_lower[of rp ?pa] by simp
    have SX: "stripReservedAttributes ?X = stripReservedAttributes rp"
      using npk by (rule strip_setOwn_reserved)
    let ?q = "stripReservedAttributes rp"
    have nokey: "\<not> ?P k" if "k \<in> fst ` set ?q" for k
      using strip_keys_nonReserved[OF that] nr_eq[of k] False by blast
    then have "find ?P (map fst ?q) = None" by (auto simp: find_None_iff)
    then have pk2: "parentKeyOf ?q ?pa = ?pa" by (simp add: parentKeyOf_def)
    obtain o2 where "applyDotNotation ?q p v = setOwn ?pa (JObj o2) ?q"
      using applyDotNotation_shape[of ?q p v] pk2 by auto
    then have "stripReservedAttributes (applyDotNotation ?q p v) = stripReservedAttributes ?q"
      using False by (simp add: strip_setOwn_reserved)
    then show ?thesis by (simp add: X SX strip_strip)
  next
    case True
    then have nrpk: "nonReserved ?pk" using nr_eq[of ?pk] parentKeyOf_lower[of rp ?pa] by simp
    have dX: "distinct (map fst ?X)" using assms by (rule distinct_setOwn)
    let ?q = "stripReservedAttributes ?X"
    have q: "?q = filter (\<lambda>e. nonReserved (fst e)) ?X" using dX by (rule strip_distinct)
    have keys_q: "map fst ?q = filter nonReserved (map fst ?X)"
      by (simp add: q filter_map comp_def)
    have "find ?P (map fst ?q) = find ?P (map fst ?X)"
      unfolding keys_q using nr_eq True by (intro find_filter) simp
    then have pk2: "parentKeyOf ?q ?pa = ?pk"
      using parentKeyOf_setOwn[of rp ?pa "JObj o1"] by (simp add: parentKeyOf_def)
    have got: "map_of ?q ?pk = Some (JObj o1)"
      using nrpk by (simp add: q map_of_filter_key map_of_setOwn)
    then have "applyDotNotation ?q p v = setOwn ?pk (JObj (setOwn ?ch v o1)) ?q"
      by (simp add: applyDotNotation_def Let_def pk2 getOwn_def)
    also have "\<dots> = ?q" using got o1 by (simp add: setOwn_same)
    finally show ?thesis by (simp add: X strip_strip)
  qed
qed

lemma not_nonReserved_active: "\<not> nonReserved ''active''"
  by (simp add: nonReserved_def RESERVED_ATTRIBUTES_def)

lemma ofOutcome_Inr:
  "ofOutcome r st = Inr st1 \<Longrightarrow> \<exists>rp. r = Returned rp \<and> st1 = st\<lparr>u_rawPayload := rp\<rparr>"
  by (cases r) (auto simp: ofOutcome_def)

lemma stable_step:
  assumes "stableUnderStrip h" and "distinct (map fst (u_rawPayload st))"
    and "ofOutcome (h (u_rawPayload st)) st = Inr st1"
  shows "\<exists>st2. ofOutcome (h (stripReservedAttributes (u_rawPayload st1)))
                  (st1\<lparr>u_rawPayload := stripReservedAttributes (u_rawPayload st1)\<rparr>) = Inr st2
             \<and> stripReservedAttributes (u_rawPayload st2) = stripReservedAttributes (u_rawPayload st1)
             \<and> u_userName st2 = u_userName st1 \<and> u_displayName st2 = u_displayName st1
             \<and> u_externalId st2 = u_externalId st1 \<and> u_active st2 = u_active st1"
proof -
  from ofOutcome_Inr[OF assms(3)] obtain rp where
    rp: "h (u_rawPayload st) = Returned rp" "st1 = st\<lparr>u_rawPayload := rp\<rparr>" by blast
  from assms(1,2) rp(1) obtain rp2 where
    "h (stripReservedAttributes rp) = Returned rp2"
    "stripReservedAttributes rp2 = stripReservedAttributes rp"
    unfolding stableUnderStrip_def by blast
  then show ?thesis using rp(2) by (simp add: ofOutcome_def)
qed

lemma stable_step':
  assumes "stableUnderStrip h" and "distinct (map fst (u_rawPayload st))"
    and "ofOutcome (h (u_rawPayload st)) st = Inr st1"
  shows "\<exists>st2. ofOutcome (h (stripReservedAttributes (u_rawPayload st1)))
                  (st1\<lparr>u_rawPayload := stripReservedAttributes (u_rawPayload st1)\<rparr>) = Inr st2
             \<and> sameOutcome st2 st1"
  using stable_step[OF assms] by (simp add: sameOutcome_def)

lemma noPathMerge_again:
  assumes "noPathMerge U val st = Inr st1" and "distinct (map fst (u_rawPayload st))"
    and "replaceUtilsStable U"
  shows "\<exists>st2. noPathMerge U val (st1\<lparr>u_rawPayload := stripReservedAttributes (u_rawPayload st1)\<rparr>) = Inr st2
             \<and> sameOutcome st2 st1"
proof -
  let ?u0 = "normalizeObjectKeys val"
  let ?A = "\<lambda>s. if hasOwn ''userName'' ?u0
            then map_sum id (\<lambda>x. (x, deleteOwn ''userName'' ?u0)) (extractStringValue (getOwn ?u0 ''userName''))
            else Inr (u_userName s, ?u0)"
  from assms(1) obtain userName u1 where A: "?A st = Inr (userName, u1)"
    by (auto simp: noPathMerge_def Let_def split: sum.splits)
  let ?B = "\<lambda>s. if hasOwn ''displayName'' u1
             then extractNullableStringValue (getOwn u1 ''displayName'')
             else Inr (u_displayName s)"
  from assms(1) A obtain displayName where B: "?B st = Inr displayName"
    by (auto simp: noPathMerge_def Let_def split: sum.splits)
  let ?C = "\<lambda>s. if hasOwn ''externalId'' u1
             then map_sum id (\<lambda>x. (x, deleteOwn ''externalId'' u1))
                    (extractNullableStringValue (getOwn u1 ''externalId''))
             else Inr (u_externalId s, u1)"
  from assms(1) A B obtain externalId u2 where C: "?C st = Inr (externalId, u2)"
    by (auto simp: noPathMerge_def Let_def split: sum.splits)
  let ?D = "\<lambda>s. if hasOwn ''active'' u2
             then map_sum id (\<lambda>b. (b, deleteOwn ''active'' u2)) (extractBooleanValue (getOwn u2 ''active''))
             else Inr (u_active s, u2)"
  from assms(1) A B C obtain active u3 where D: "?D st = Inr (active, u3)"
    by (auto simp: noPathMerge_def Let_def split: sum.splits)
  let ?base = "\<lambda>rp. \<lparr>u_userName = userName, u_displayName = displayName, u_externalId = externalId,
             u_active = active, u_rawPayload = rp\<rparr>"
  have fin: "ofOutcome (resolveNoPathValue U (u_rawPayload st) u3) (?base (u_rawPayload st)) = Inr st1"
    using assms(1) A B C D by (simp add: noPathMerge_def Let_def)
  then obtain rp where rp: "resolveNoPathValue U (u_rawPayload st) u3 = Returned rp"
    "st1 = ?base rp"
    by (auto dest: ofOutcome_Inr)
  let ?st1' = "st1\<lparr>u_rawPayload := stripReservedAttributes (u_rawPayload st1)\<rparr>"
  have fields: "u_userName ?st1' = userName" "u_displayName ?st1' = displayName"
    "u_externalId ?st1' = externalId" "u_active ?st1' = active"
    "u_rawPayload ?st1' = stripReservedAttributes rp"
    using rp(2) by simp_all
  have A': "?A ?st1' = Inr (userName, u1)"
    using A fields(1) by (auto split: if_splits)
  have B': "?B ?st1' = Inr displayName"
    using B fields(2) by (auto split: if_splits)
  have C': "?C ?st1' = Inr (externalId, u2)"
    using C fields(3) by (auto split: if_splits)
  have D': "?D ?st1' = Inr (active, u3)"
    using D fields(4) by (auto split: if_splits)
  have stable: "stableUnderStrip (\<lambda>rp. resolveNoPathValue U rp u3)"
    using assms(3) by (simp add: replaceUtilsStable_def)
  from stable assms(2) rp(1) obtain rp2 where rp2:
    "resolveNoPathValue U (stripReservedAttributes rp) u3 = Returned rp2"
    "stripReservedAttributes rp2 = stripReservedAttributes rp"
    unfolding stableUnderStrip_def by blast
  have "noPathMerge U val ?st1' = Inr (?base rp2)"
    apply (simp only: noPathMerge_def Let_def)
    apply (simp only: A' sum.case prod.case)
    apply (simp only: B' sum.case prod.case)
    apply (simp only: C' sum.case prod.case)
    apply (simp only: D' sum.case prod.case)
    apply (simp only: fields(5) rp2(1) ofOutcome_def outcome.case)
    apply simp
    done
  moreover have "sameOutcome (?base rp2) st1"
    using rp(2) rp2(2) by (simp add: sameOutcome_def)
  ultimately show ?thesis by blast
qed

lemma replace_again:
  assumes ok: "applyAddOrReplace U ''replace'' path val st config = Inr st1"
    and dist: "distinct (map fst (u_rawPayload st))"
    and stable: "replaceUtilsStable U"
  shows "\<exists>st2. applyAddOrReplace U ''replace'' path val
                 (st1\<lparr>u_rawPayload := stripReservedAttributes (u_rawPayload st1)\<rparr>) config = Inr st2
             \<and> sameOutcome st2 st1"
proof -
  let ?lp = "map_option toLowerCase path"
  let ?rp = "u_rawPayload st"
  let ?S = stripReservedAttributes
  let ?st1' = "st1\<lparr>u_rawPayload := ?S (u_rawPayload st1)\<rparr>"
  consider (active) "?lp = Some ''active''"
    | (username) "?lp \<noteq> Some ''active''" "?lp = Some ''username''"
    | (displayname) "?lp \<noteq> Some ''active''" "?lp \<noteq> Some ''username''" "?lp = Some ''displayname''"
    | (externalid) "?lp \<noteq> Some ''active''" "?lp \<noteq> Some ''username''"
        "?lp \<noteq> Some ''displayname''" "?lp = Some ''externalid''"
    | (other) "?lp \<noteq> Some ''active''" "?lp \<noteq> Some ''username''"
        "?lp \<noteq> Some ''displayname''" "?lp \<noteq> Some ''externalid''"
    by blast
  then show ?thesis
  proof cases
    case active
    with ok obtain b where b: "extractBooleanValue val = Inr b"
      "st1 = st\<lparr>u_active := b, u_rawPayload := setOwn ''active'' (JBool b) ?rp\<rparr>"
      by (auto simp: applyAddOrReplace_def Let_def split: sum.splits simp del: map_option_eq_Some)
    show ?thesis using active b
      by (simp add: applyAddOrReplace_def Let_def sameOutcome_def strip_setOwn_reserved
          not_nonReserved_active strip_strip del: map_option_eq_Some)
  next
    case username
    with ok obtain s where s: "extractStringValue val = Inr s" "st1 = st\<lparr>u_userName := s\<rparr>"
      by (auto simp: applyAddOrReplace_def Let_def split: sum.splits simp del: map_option_eq_Some)
    show ?thesis using username s
      by (simp add: applyAddOrReplace_def Let_def sameOutcome_def strip_strip del: map_option_eq_Some)
  next
    case displayname
    with ok obtain d where d: "extractNullableStringValue val = Inr d"
      "st1 = st\<lparr>u_displayName := d, u_rawPayload := setOwn ''displayName''
          (case d of None \<Rightarrow> JNull | Some s \<Rightarrow> JStr s) ?rp\<rparr>"
      by (auto simp: applyAddOrReplace_def Let_def split: sum.splits simp del: map_option_eq_Some)
    show ?thesis using displayname d strip_setOwn_again[OF dist]
      by (simp add: applyAddOrReplace_def Let_def sameOutcome_def del: map_option_eq_Some)
  next
    case externalid
    with ok obtain x where x: "extractNullableStringValue val = Inr x" "st1 = st\<lparr>u_externalId := x\<rparr>"
      by (auto simp: applyAddOrReplace_def Let_def split: sum.splits simp del: map_option_eq_Some)
    show ?thesis using externalid x
      by (simp add: applyAddOrReplace_def Let_def sameOutcome_def strip_strip del: map_option_eq_Some)
  next
    case other
    note fc = other
    show ?thesis
    proof (cases "truthyPath path")
      case None
      show ?thesis
      proof (cases "typeof val = ''object'' \<and> val \<noteq> JNull")
        case True
        with ok fc None have "noPathMerge U val st = Inr st1"
          by (simp add: applyAddOrReplace_def Let_def del: map_option_eq_Some)
        from noPathMerge_again[OF this dist stable] show ?thesis
          using fc None True by (simp add: applyAddOrReplace_def Let_def del: map_option_eq_Some)
      next
        case False
        with ok fc None have "st1 = st" by (auto simp: applyAddOrReplace_def Let_def simp del: map_option_eq_Some)
        then show ?thesis using fc None False
          by (auto simp: applyAddOrReplace_def Let_def sameOutcome_def strip_strip simp del: map_option_eq_Some)
      qed
    next
      case (Some p)
      show ?thesis
      proof (cases "isExtensionPath U p")
        case True
        note ext = True
        show ?thesis
        proof (cases "parseExtensionPath U p")
          case Threw
          with ok fc Some ext show ?thesis by (simp add: applyAddOrReplace_def Let_def del: map_option_eq_Some)
        next
          case (Returned r)
          show ?thesis
          proof (cases r)
            case None
            with ok fc Some ext Returned have "st1 = st" by (simp add: applyAddOrReplace_def Let_def del: map_option_eq_Some)
            then show ?thesis using fc Some ext Returned None
              by (simp add: applyAddOrReplace_def Let_def sameOutcome_def strip_strip del: map_option_eq_Some)
          next
            case (Some e)
            have h: "stableUnderStrip (\<lambda>rp. applyExtensionUpdate U rp e val)"
              using stable by (simp add: replaceUtilsStable_def)
            have "ofOutcome (applyExtensionUpdate U ?rp e val) st = Inr st1"
              using ok fc \<open>truthyPath path = Some p\<close> ext Returned Some
              by (simp add: applyAddOrReplace_def Let_def del: map_option_eq_Some)
            from stable_step'[OF h dist this] show ?thesis
              using fc \<open>truthyPath path = Some p\<close> ext Returned Some
              by (simp add: applyAddOrReplace_def Let_def del: map_option_eq_Some)
          qed
        qed
      next
        case False
        note nex = False
        show ?thesis
        proof (cases "isValuePath U p")
          case True
          note vp = True
          show ?thesis
          proof (cases "parseValuePath U p")
            case Threw
            with ok fc Some nex vp show ?thesis by (simp add: applyAddOrReplace_def Let_def del: map_option_eq_Some)
          next
            case (Returned r)
            show ?thesis
            proof (cases r)
              case None
              with ok fc Some nex vp Returned have "st1 = st"
                by (simp add: applyAddOrReplace_def Let_def del: map_option_eq_Some)
              then show ?thesis using fc Some nex vp Returned None
                by (simp add: applyAddOrReplace_def Let_def sameOutcome_def strip_strip del: map_option_eq_Some)
            next
              case (Some e)
              have h: "stableUnderStrip (\<lambda>rp. applyValuePathUpdate U rp e val)"
                using stable by (simp add: replaceUtilsStable_def)
              have "ofOutcome (applyValuePathUpdate U ?rp e val) st = Inr st1"
                using ok fc \<open>truthyPath path = Some p\<close> nex vp Returned Some
                by (simp add: applyAddOrReplace_def Let_def del: map_option_eq_Some)
              from stable_step'[OF h dist this] show ?thesis
                using fc \<open>truthyPath path = Some p\<close> nex vp Returned Some
                by (simp add: applyAddOrReplace_def Let_def del: map_option_eq_Some)
            qed
          qed
        next
          case False
          note nvp = False
          show ?thesis
          proof (cases "verbosePatch config \<and> CHR ''.'' \<in> set p")
            case True
            with ok fc Some nex nvp have "st1 = st\<lparr>u_rawPayload := applyDotNotation ?rp p val\<rparr>"
              by (auto simp: applyAddOrReplace_def Let_def simp del: map_option_eq_Some)
            then show ?thesis using fc Some nex nvp True dot_again[OF dist, of p val]
              by (simp add: applyAddOrReplace_def Let_def sameOutcome_def del: map_option_eq_Some)
          next
            case False
            with ok fc Some nex nvp have "st1 = st\<lparr>u_rawPayload := setOwn p val ?rp\<rparr>"
              by (auto simp: applyAddOrReplace_def Let_def simp del: map_option_eq_Some)
            then show ?thesis using fc Some nex nvp False strip_setOwn_again[OF dist, of p val]
              by (auto simp: applyAddOrReplace_def Let_def sameOutcome_def simp del: map_option_eq_Some)
          qed
        qed
      qed
    qed
  qed
qed

lemma user_replace_idempotent:
  assumes "map_option toLowerCase (p_op r) = Some ''replace''"
    and "UserPatchEngine_apply U [r] st config = Inr res"
    and "distinct (map fst (u_rawPayload st))" and "replaceUtilsStable U"
  shows "UserPatchEngine_apply U [r] (userStateOf res) config = Inr res"
proof -
  have sup: "supportedOp r = Inr ''replace''" using assms(1) by (simp add: supportedOp_lower)
  from assms(2) sup obtain st1 where st1:
    "applyAddOrReplace U ''replace'' (p_path r) (p_value r) st config = Inr st1"
    "res = \<lparr>payload = stripReservedAttributes (u_rawPayload st1),
            extractedFields = \<lparr>x_userName = u_userName st1, x_displayName = u_displayName st1,
              x_externalId = u_externalId st1, x_active = u_active st1\<rparr>\<rparr>"
    by (auto simp: UserPatchEngine_apply_def userStep_def split: sum.splits)
  have eq: "userStateOf res = st1\<lparr>u_rawPayload := stripReservedAttributes (u_rawPayload st1)\<rparr>"
    by (simp add: userStateOf_def st1(2))
  from replace_again[OF st1(1) assms(3,4)] obtain st2 where st2:
    "applyAddOrReplace U ''replace'' (p_path r) (p_value r) (userStateOf res) config = Inr st2"
    "sameOutcome st2 st1"
    unfolding eq by blast
  then show ?thesis using sup st1(2)
    by (simp add: UserPatchEngine_apply_def userStep_def sameOutcome_def)
qed

lemma setOwn_commute:
  "k \<noteq> k1 \<Longrightarrow> k \<in> fst ` set m \<Longrightarrow>
     setOwn k1 v1 (setOwn k v m) = setOwn k v (setOwn k1 v1 m)"
proof (induction m)
  case Nil
  then show ?case by simp
next
  case (Cons a m)
  obtain ka va where a: "a = (ka, va)" by (cases a)
  show ?case
  proof (cases "ka = k \<or> ka = k1")
    case True
    with Cons.prems(1) show ?thesis by (auto simp: a)
  next
    case False
    with Cons.prems have "k \<in> fst ` set m" by (auto simp: a)
    with Cons.IH Cons.prems(1) False show ?thesis by (simp add: a)
  qed
qed

lemma fold_setOwn_dead_write:
  "k \<in> fst ` set es \<Longrightarrow> k \<in> fst ` set m \<Longrightarrow>
     fold (\<lambda>(k, v) a. setOwn k v a) es (setOwn k v m) = fold (\<lambda>(k, v) a. setOwn k v a) es m"
proof (induction es arbitrary: m)
  case Nil
  then show ?case by simp
next
  case (Cons e es)
  obtain k1 v1 where e: "e = (k1, v1)" by (cases e)
  show ?case
  proof (cases "k1 = k")
    case True
    then show ?thesis by (simp add: e setOwn_twice)
  next
    case False
    with Cons.prems have in_es: "k \<in> fst ` set es" by (auto simp: e)
    have in_m: "k \<in> fst ` set (setOwn k1 v1 m)" using Cons.prems(2) by (simp add: keys_setOwn)
    have "setOwn k1 v1 (setOwn k v m) = setOwn k v (setOwn k1 v1 m)"
      using False Cons.prems(2) by (intro setOwn_commute) auto
    then show ?thesis using Cons.IH[OF in_es in_m] by (simp add: e)
  qed
qed

lemma fold_setOwn_untouched:
  "k \<notin> fst ` set es \<Longrightarrow> k \<in> fst ` set m \<Longrightarrow>
     fold (\<lambda>(k, v) a. setOwn k v a) es (setOwn k v m)
       = setOwn k v (fold (\<lambda>(k, v) a. setOwn k v a) es m)"
proof (induction es arbitrary: m)
  case Nil
  then show ?case by simp
next
  case (Cons e es)
  obtain k1 v1 where e: "e = (k1, v1)" by (cases e)
  from Cons.prems have ne: "k \<noteq> k1" and notin: "k \<notin> fst ` set es" by (auto simp: e)
  have in_m: "k \<in> fst ` set (setOwn k1 v1 m)" using Cons.prems(2) by (simp add: keys_setOwn)
  have "setOwn k1 v1 (setOwn k v m) = setOwn k v (setOwn k1 v1 m)"
    using ne Cons.prems(2) by (intro setOwn_commute) auto
  then show ?case using Cons.IH[OF notin in_m] by (simp add: e)
qed

lemma fold_setOwn_idem:
  "fold (\<lambda>(k, v) a. setOwn k v a) es (fold (\<lambda>(k, v) a. setOwn k v a) es m)
     = fold (\<lambda>(k, v) a. setOwn k v a) es m"
proof (induction es arbitrary: m)
  case Nil
  then show ?case by simp
next
  case (Cons e es)
  obtain k v where e: "e = (k, v)" by (cases e)
  let ?G = "fold (\<lambda>(k, v) a. setOwn k v a) es"
  let ?x = "setOwn k v m"
  have kx: "k \<in> fst ` set ?x" by (simp add: keys_setOwn)
  have kG: "k \<in> fst ` set (?G ?x)" using kx by (simp add: keys_fromEntries_gen)
  have "?G (setOwn k v (?G ?x)) = ?G ?x"
  proof (cases "k \<in> fst ` set es")
    case True
    from fold_setOwn_dead_write[OF True kG] Cons.IH[of ?x] show ?thesis by simp
  next
    case False
    have "?G (setOwn k v (?G ?x)) = setOwn k v (?G (?G ?x))"
      using fold_setOwn_untouched[OF False kG] .
    also have "\<dots> = setOwn k v (?G ?x)" by (simp add: Cons.IH)
    also have "\<dots> = ?G (setOwn k v ?x)" using fold_setOwn_untouched[OF False kx] by simp
    also have "\<dots> = ?G ?x" by (simp add: setOwn_twice)
    finally show ?thesis .
  qed
  then show ?case by (simp add: e)
qed

lemma fold_cond_setOwn:
  "fold (\<lambda>(key, val) up. if c key then setOwn key val up else up) es m
     = fold (\<lambda>(k, v) a. setOwn k v a) (filter (\<lambda>e. c (fst e)) es) m"
  by (induction es arbitrary: m) (auto simp: case_prod_unfold)

lemma merge_payload_idem:
  "fold (\<lambda>(key, val) up. if c key then setOwn key val up else up) es
     (fold (\<lambda>(key, val) up. if c key then setOwn key val up else up) es m)
   = fold (\<lambda>(key, val) up. if c key then setOwn key val up else up) es m"
  by (simp only: fold_cond_setOwn fold_setOwn_idem)

lemma noPath_idem:
  assumes "handleReplaceNoPath v st = Inr st1"
  shows "handleReplaceNoPath v st1 = Inr st1"
proof (cases "typeof v = ''object'' \<and> v \<noteq> JNull")
  case True
  then have t: "typeof v = ''object''" "v \<noteq> JNull" by simp_all
  let ?F = "fold (\<lambda>(key, val) up.
                         if key \<noteq> ''displayName'' \<and> key \<noteq> ''externalId''
                            \<and> key \<noteq> ''members'' \<and> key \<noteq> ''schemas''
                         then setOwn key val up else up) (entries v)"
  let ?M = "\<lambda>s. (case getProp v ''members'' of
              JArr ms \<Rightarrow>
                (case mapE toMemberDto ms of
                   Inl e \<Rightarrow> Inl e | Inr ds \<Rightarrow> Inr (ensureUniqueMembers ds))
            | _ \<Rightarrow> Inr (g_members s))"
  from assms handleReplaceNoPath_object[OF t, of st] obtain ms where
    ms: "?M st = Inr ms"
    and st1: "st1 = \<lparr>g_displayName =
                 (case getProp v ''displayName'' of JStr s \<Rightarrow> s | _ \<Rightarrow> g_displayName st),
               g_externalId =
                 (if hasProp ''externalId'' v
                  then (case getProp v ''externalId'' of JStr s \<Rightarrow> Some s | _ \<Rightarrow> None)
                  else g_externalId st),
               g_members = ms, g_rawPayload = ?F (g_rawPayload st)\<rparr>"
    by (auto split: sum.splits)
  have M1: "?M st1 = Inr ms" using ms st1 by (auto split: json.splits sum.splits)
  have dn: "(case getProp v ''displayName'' of JStr s \<Rightarrow> s | _ \<Rightarrow> g_displayName st1)
            = g_displayName st1"
    using st1 by (auto split: json.splits)
  have ex: "(if hasProp ''externalId'' v
                  then (case getProp v ''externalId'' of JStr s \<Rightarrow> Some s | _ \<Rightarrow> None)
                  else g_externalId st1) = g_externalId st1"
    using st1 by auto
  have pl: "?F (g_rawPayload st1) = g_rawPayload st1"
    using st1 merge_payload_idem by simp
  show ?thesis
    apply (subst handleReplaceNoPath_object[OF t])
    apply (simp only: M1 sum.case dn ex pl)
    apply (simp add: st1)
    done
next
  case False
  then have f: "typeof v \<noteq> ''object'' \<or> v = JNull" by blast
  from assms handleReplaceNoPath_other[OF f, of st] handleReplaceNoPath_other[OF f, of st1]
  show ?thesis by (cases v) auto
qed

lemma handleReplace_idem:
  assumes "handleReplace operation st = Inr st1"
  shows "handleReplace operation st1 = Inr st1"
proof (cases "lowerPath operation = None \<or> lowerPath operation = Some []")
  case True
  then have "handleReplace operation s = handleReplaceNoPath (p_value operation) s" for s
    by (auto simp: handleReplace_def)
  with assms noPath_idem show ?thesis by simp
next
  case False
  then obtain path where path: "lowerPath operation = Some path" "path \<noteq> []" by auto
  with assms show ?thesis
    by (cases "p_value operation")
       (auto simp: handleReplace_def split: if_splits sum.splits)
qed

lemma group_replace_idempotent:
  assumes "map_option toLowerCase (p_op r) = Some ''replace''"
    and "GroupPatchEngine_apply [r] st config = Inr res"
  shows "GroupPatchEngine_apply [r] (groupStateOf res) config = Inr res"
proof -
  have sup: "supportedOp r = Inr ''replace''" using assms(1) by (simp add: supportedOp_lower)
  from assms(2) sup obtain st1 where st1: "handleReplace r st = Inr st1"
    "res = \<lparr>gr_displayName = g_displayName st1, gr_externalId = g_externalId st1,
            gr_payload = g_rawPayload st1, gr_members = g_members st1\<rparr>"
    by (auto simp: GroupPatchEngine_apply_def groupStep_def split: sum.splits)
  have "groupStateOf res = st1" by (simp add: groupStateOf_def st1(2))
  with handleReplace_idem[OF st1(1)] sup st1(2) show ?thesis
    by (simp add: GroupPatchEngine_apply_def groupStep_def)
qed

lemma setOwn_filter_nonReserved:
  "nonReserved k \<Longrightarrow>
     setOwn k v (filter (\<lambda>e. nonReserved (fst e)) q) = filter (\<lambda>e. nonReserved (fst e)) (setOwn k v q)"
  by (induction q) auto

lemma strip_setOwn_strip:
  assumes "distinct (map fst q)"
  shows "stripReservedAttributes (setOwn k v (stripReservedAttributes q))
           = stripReservedAttributes (setOwn k v q)"
proof (cases "nonReserved k")
  case True
  have "setOwn k v (stripReservedAttributes q) = stripReservedAttributes (setOwn k v q)"
    using assms True
    by (simp add: strip_distinct distinct_setOwn setOwn_filter_nonReserved)
  then show ?thesis by (simp add: strip_strip)
next
  case False
  then show ?thesis by (simp add: strip_setOwn_reserved strip_strip)
qed

lemma strip_fold_strip:
  "distinct (map fst q) \<Longrightarrow>
     stripReservedAttributes (fold (\<lambda>(k, v) a. setOwn k v a) u (stripReservedAttributes q))
       = stripReservedAttributes (fold (\<lambda>(k, v) a. setOwn k v a) u q)"
proof (induction u arbitrary: q)
  case Nil
  then show ?case by (simp add: strip_strip)
next
  case (Cons e u)
  obtain k v where e: "e = (k, v)" by (cases e)
  let ?G = "fold (\<lambda>(k, v) a. setOwn k v a) u"
  let ?S = stripReservedAttributes
  have d1: "distinct (map fst (setOwn k v (?S q)))" by (simp add: distinct_setOwn distinct_strip)
  have d2: "distinct (map fst (setOwn k v q))" using Cons.prems by (rule distinct_setOwn)
  have "?S (?G (setOwn k v (?S q))) = ?S (?G (?S (setOwn k v (?S q))))"
    using Cons.IH[OF d1] by simp
  also have "\<dots> = ?S (?G (?S (setOwn k v q)))"
    by (simp add: strip_setOwn_strip[OF Cons.prems])
  also have "\<dots> = ?S (?G (setOwn k v q))" using Cons.IH[OF d2] .
  finally show ?case by (simp add: e)
qed

lemma plainPaths_stable: "replaceUtilsStable plainPaths"
proof -
  have inert: "stableUnderStrip (\<lambda>rp. Returned rp)"
    by (simp add: stableUnderStrip_def strip_strip)
  have merge: "stableUnderStrip (\<lambda>rp. Returned (fold (\<lambda>(k, v) acc. setOwn k v acc) u rp))" for u
  proof -
    have "stripReservedAttributes (fold (\<lambda>(k, v) a. setOwn k v a) u
            (stripReservedAttributes (fold (\<lambda>(k, v) a. setOwn k v a) u rp)))
          = stripReservedAttributes (fold (\<lambda>(k, v) a. setOwn k v a) u rp)"
      if "distinct (map fst rp)" for rp
      using strip_fold_strip[OF distinct_fold_setOwn[OF that], of u u]
      by (simp add: fold_setOwn_idem)
    then show ?thesis by (auto simp: stableUnderStrip_def)
  qed
  show ?thesis using inert merge by (simp add: replaceUtilsStable_def plainPaths_def)
qed

theorem active_coercion_witness:
  "UserPatchEngine_apply plainPaths
     [\<lparr>p_op = Some ''Add'', p_path = Some ''Active'',
       p_value = JObj [(''active'', JStr ''FALSE'')]\<rparr>] jdoe defaultUserConfig
   = Inr \<lparr>payload = u_rawPayload jdoe,
          extractedFields = \<lparr>x_userName = ''jdoe@example.com'', x_displayName = Some ''John Doe'',
            x_externalId = Some ''ext-001'', x_active = False\<rparr>\<rparr>"
proof -
  have a: "acceptedActive (JObj [(''active'', JStr ''FALSE'')]) = Some False"
    by (simp add: acceptedActive_def boolLike_def hasOwn_def getOwn_def toLowerCase_def)
  have s: "stripReservedAttributes (setOwn ''active'' (JBool False) (u_rawPayload jdoe))
             = u_rawPayload jdoe"
    by (simp add: jdoe_def stripReservedAttributes_def RESERVED_ATTRIBUTES_def fromEntries_def
        toLowerCase_def)
  show ?thesis
    using active_coercion [of "\<lparr>p_op = Some ''Add'', p_path = Some ''Active'',
       p_value = JObj [(''active'', JStr ''FALSE'')]\<rparr>" plainPaths jdoe defaultUserConfig]
    by (simp add: a s toLowerCase_def) (simp add: jdoe_def)
qed

theorem reserved_keys_stripped_witness:
  "UserPatchEngine_apply plainPaths [hackAdd] jdoe defaultUserConfig
     = Inr \<lparr>payload = u_rawPayload jdoe @ [(''title'', JStr ''OK'')],
            extractedFields = \<lparr>x_userName = ''hack'', x_displayName = Some ''John Doe'',
              x_externalId = Some ''ext-001'', x_active = True\<rparr>\<rparr>
   \<and> toLowerCase ''title'' \<noteq> toLowerCase ''id''"
proof -
  let ?R = "\<lparr>payload = u_rawPayload jdoe @ [(''title'', JStr ''OK'')],
            extractedFields = \<lparr>x_userName = ''hack'', x_displayName = Some ''John Doe'',
              x_externalId = Some ''ext-001'', x_active = True\<rparr>\<rparr>"
  have e: "UserPatchEngine_apply plainPaths [hackAdd] jdoe defaultUserConfig = Inr ?R"
    by (simp add: UserPatchEngine_apply_def userStep_def supportedOp_def hackAdd_def
        applyAddOrReplace_def truthyPath_def typeof_def noPathMerge_def normalizeObjectKeys_def
        entries_def CANONICAL_KEY_MAP_def hasOwn_def getOwn_def deleteOwn_def
        extractStringValue_def extractBooleanValue_def ofOutcome_def plainPaths_def jdoe_def
        stripReservedAttributes_def RESERVED_ATTRIBUTES_def fromEntries_def toLowerCase_def)
  have "''title'' \<in> fst ` set (payload ?R)" by (simp add: jdoe_def)
  with reserved_keys_stripped [OF e] have "toLowerCase ''title'' \<noteq> toLowerCase ''id''"
    by blast
  with e show ?thesis by blast
qed

section \<open>Idempotence of a replace that the engines apply themselves\<close>

lemma quiet_stable: "replaceUtilsStable (quietUtils U)"
  by (simp add: replaceUtilsStable_def stableUnderStrip_def quietUtils_def strip_strip)

lemma quiet_same:
  assumes "map_option toLowerCase (p_op r) = Some ''replace''" and "engineApplied U r"
  shows "UserPatchEngine_apply (quietUtils U) [r] st config = UserPatchEngine_apply U [r] st config"
proof -
  from assms(1) have s: "supportedOp r = Inr ''replace''"
    by (auto simp: supportedOp_def)
  from assms(2) obtain p where p: "truthyPath (p_path r) = Some p"
    and e: "toLowerCase p \<in> {''active'', ''username'', ''displayname'', ''externalid''}
          \<or> (\<not> isExtensionPath U p \<and> \<not> isValuePath U p)"
    by (auto simp: engineApplied_def split: option.splits)
  from p have pp: "p_path r = Some p" by (auto simp: truthyPath_def split: option.splits if_splits)
  from p pp have tp: "truthyPath (Some p) = Some p" by simp
  have "userStep (quietUtils U) config r st = userStep U config r st"
    using e by (auto simp: userStep_def s applyAddOrReplace_def pp tp quietUtils_def Let_def)
  then show ?thesis by (simp add: UserPatchEngine_apply_def split: sum.splits)
qed

text \<open>
  A replace operation of the group engine that succeeds on a state succeeds again, with
  the same result, on the state made of that result.
\<close>

theorem group_replace_is_idempotent:
  assumes "map_option toLowerCase (p_op r) = Some ''replace''"
    and "GroupPatchEngine_apply [r] st config = Inr res"
  shows "GroupPatchEngine_apply [r] (groupStateOf res) config = Inr res"
  using group_replace_idempotent[OF assms] .

theorem group_replace_is_idempotent_witness:
  "GroupPatchEngine_apply [renameToSales] engineering strictConfig = Inr salesGroup
   \<and> GroupPatchEngine_apply [renameToSales] (groupStateOf salesGroup) strictConfig = Inr salesGroup"
proof -
  have r: "map_option toLowerCase (p_op renameToSales) = Some ''replace''"
    by (simp add: renameToSales_def toLowerCase_def)
  have g: "GroupPatchEngine_apply [renameToSales] engineering strictConfig = Inr salesGroup"
    by (simp add: GroupPatchEngine_apply_def groupStep_def supportedOp_def handleReplace_def
        lowerPath_def toLowerCase_def renameToSales_def engineering_def salesGroup_def)
  from group_replace_is_idempotent [OF r g] g show ?thesis by blast
qed

text \<open>
  A replace operation of the user engine that the engine applies with its own code (a
  first-class field, a dot-notation path or a plain path), and that succeeds on a state
  whose payload is an object (its keys are distinct), succeeds again, with the same
  result, on the state made of that result. Nothing is assumed of the updates of
  scim-patch-path.ts, which such a replace does not reach; the replaces that reach them
  (extension paths, value paths, and the replace with no path) are not covered.
\<close>

theorem user_replace_is_idempotent:
  assumes "map_option toLowerCase (p_op r) = Some ''replace''"
    and "engineApplied U r"
    and "distinct (map fst (u_rawPayload st))"
    and "UserPatchEngine_apply U [r] st config = Inr res"
  shows "UserPatchEngine_apply U [r] (userStateOf res) config = Inr res"
proof -
  from assms(4) have "UserPatchEngine_apply (quietUtils U) [r] st config = Inr res"
    by (simp add: quiet_same[OF assms(1,2)])
  from user_replace_idempotent[OF assms(1) this assms(3) quiet_stable]
  show ?thesis by (simp add: quiet_same[OF assms(1,2)])
qed

theorem user_replace_is_idempotent_witness:
  "engineApplied plainPaths replaceGivenName
   \<and> UserPatchEngine_apply plainPaths [replaceGivenName] jdoe verboseConfig = Inr janeUser
   \<and> UserPatchEngine_apply plainPaths [replaceGivenName] (userStateOf janeUser) verboseConfig
       = Inr janeUser"
proof -
  have r: "map_option toLowerCase (p_op replaceGivenName) = Some ''replace''"
    by (simp add: replaceGivenName_def toLowerCase_def)
  have e: "engineApplied plainPaths replaceGivenName"
    by (simp add: engineApplied_def replaceGivenName_def truthyPath_def plainPaths_def)
  have d: "distinct (map fst (u_rawPayload jdoe))" by (simp add: jdoe_def)
  have u: "UserPatchEngine_apply plainPaths [replaceGivenName] jdoe verboseConfig = Inr janeUser"
    by (simp add: UserPatchEngine_apply_def userStep_def supportedOp_def replaceGivenName_def
        applyAddOrReplace_def truthyPath_def plainPaths_def verboseConfig_def
        applyDotNotation_def parentKeyOf_def getOwn_def jdoe_def janeUser_def
        stripReservedAttributes_def RESERVED_ATTRIBUTES_def fromEntries_def toLowerCase_def)
  from user_replace_is_idempotent [OF r e d u] e u show ?thesis by blast
qed

section \<open>Filter push-down\<close>












text \<open>Where a comparison is not covered, and the stored value is no list, the answer of
  the evaluator is the open one: nothing is to be proved of it there.\<close>

lemma uncovered_is_open:
  "\<not> covered opr stored val \<Longrightarrow> \<not> isArray stored \<Longrightarrow>
     compareValues other opr stored val = other opr stored val"
  by (cases stored; cases val; cases opr;
      simp add: covered_def compareValues_def typeof_def isArray_def)



text \<open>An attribute path that spells a name inherited from \<open>Object.prototype\<close> is pushed,
  on the column \<open>undefined\<close>, by the operators that do not look at the column type.\<close>

lemma inherited_name_is_pushed:
  "tryPushToDb (CompareNode ''constructor'' Eq (JStr ''x'')) USER_DB_COLUMNS
     = Some [(''undefined'', JStr ''x'')]"
  "tryPushToDb (CompareNode ''Constructor'' Co (JStr ''x'')) USER_DB_COLUMNS = None"
  "tryPushToDb (CompareNode ''__proto__'' Pr JUndef) GROUP_DB_COLUMNS
     = Some [(''undefined'', JObj [(''not'', JNull)])]"
  by (simp_all add: pushCompareToDb_def lookupColumn_def inheritedNames_def propertyKey_def
      buildColumnFilter_def USER_DB_COLUMNS_def GROUP_DB_COLUMNS_def toLowerCase_def)








text \<open>
  Claim C2. When a side of a logical node (\<open>and\<close> or \<open>or\<close>) is unpushable against the
  column map (in particular when exactly one side is), the node is unpushable: the result
  has an empty where clause, \<open>fetchAll = true\<close> and the in-memory filter of the whole
  node, whatever the evaluator is; no predicate of the pushable side is returned.
\<close>

theorem one_sided_logical_unpushable:
  assumes "tryPushToDb l columnMap = None \<or> tryPushToDb r columnMap = None"
  shows "tryPushToDb (LogicalNode lop l r) columnMap = None
       \<and> dbWhere (buildFilterResult ev (LogicalNode lop l r) columnMap) = []
       \<and> fetchAll (buildFilterResult ev (LogicalNode lop l r) columnMap) = True
       \<and> inMemoryFilter (buildFilterResult ev (LogicalNode lop l r) columnMap)
           = Some (ev (LogicalNode lop l r))"
proof -
  have "tryPushToDb (LogicalNode lop l r) columnMap = None"
    using assms by (auto split: option.splits)
  then show ?thesis by (simp add: buildFilterResult_def)
qed

theorem one_sided_logical_unpushable_witness:
  "tryPushToDb (CompareNode ''userName'' Eq (JStr ''john'')) USER_DB_COLUMNS
     = Some [(''userName'', JStr ''john'')]
   \<and> tryPushToDb (CompareNode ''emails.value'' Eq (JStr ''x@y.com'')) USER_DB_COLUMNS = None
   \<and> dbWhere (buildFilterResult (evaluateFilter getOwn noRelation) scenario2 USER_DB_COLUMNS) = []
   \<and> fetchAll (buildFilterResult (evaluateFilter getOwn noRelation) scenario2 USER_DB_COLUMNS) = True"
proof -
  have l: "tryPushToDb (CompareNode ''userName'' Eq (JStr ''john'')) USER_DB_COLUMNS
     = Some [(''userName'', JStr ''john'')]"
    by (simp add: pushCompareToDb_def lookupColumn_def propertyKey_def buildColumnFilter_def
        USER_DB_COLUMNS_def toLowerCase_def)
  have r: "tryPushToDb (CompareNode ''emails.value'' Eq (JStr ''x@y.com'')) USER_DB_COLUMNS = None"
    by (simp add: pushCompareToDb_def lookupColumn_def inheritedNames_def USER_DB_COLUMNS_def
        toLowerCase_def)
  from one_sided_logical_unpushable [OF disjI2 [OF r],
      where ev = "evaluateFilter getOwn noRelation"
      and lop = And and l = "CompareNode ''userName'' Eq (JStr ''john'')"]
  have "dbWhere (buildFilterResult (evaluateFilter getOwn noRelation) scenario2 USER_DB_COLUMNS) = []
   \<and> fetchAll (buildFilterResult (evaluateFilter getOwn noRelation) scenario2 USER_DB_COLUMNS) = True"
    unfolding scenario2_def by simp
  with l r show ?thesis by simp
qed

section \<open>A failed batch and the caller's payload\<close>

lemma jane_first_step:
  assumes "\<not> isExtensionPath_st U ''name.givenName''" and "\<not> isValuePath_st U ''name.givenName''"
  shows "userStep_st U verboseConfig replaceGivenName jdoeStore jdoe_st
           = (jdoeStore(0 \<mapsto> JObj [(''givenName'', JStr ''Jane''), (''familyName'', JStr ''Doe'')]),
              Inr jdoe_st)"
  using assms
  by (simp add: userStep_st_def supportedOp_def replaceGivenName_def applyAddOrReplace_st_def
      toLowerCase_def truthyPath_def verboseConfig_def applyDotNotation_st_def parentKeyOf_def
      jdoe_st_def jdoeStore_def)

lemma remove_no_path_throws:
  "userStep_st U config removeNoPath h st = (h, Inl (Thrown (PatchError 400 noTarget)))"
  by (simp add: userStep_st_def supportedOp_def removeNoPath_def applyRemove_st_def
      toLowerCase_def truthyPath_def)

text \<open>
  Claim C3, at the input where the engine departs from it. The batch replaces
  \<open>name.givenName\<close> under \<open>verbosePatch\<close> and then removes with no path. The call throws
  the \<open>noTarget\<close> error of the second operation, and leaves the store changed: the first
  operation wrote to the \<open>name\<close> object that the caller's payload holds, so the caller
  reads the given name Jane from its state where it read John before the call. The path
  utilities are any that take \<open>name.givenName\<close> for neither an extension path nor a value
  path, as the unit test of the dot notation has it.
\<close>

theorem failed_batch_mutates_nested_payload:
  assumes "\<not> isExtensionPath_st U ''name.givenName''" and "\<not> isValuePath_st U ''name.givenName''"
  shows "UserPatchEngine_apply_st U jdoeStore [replaceGivenName, removeNoPath] jdoe_st verboseConfig
           = (jdoeStore(0 \<mapsto> JObj [(''givenName'', JStr ''Jane''), (''familyName'', JStr ''Doe'')]),
              Inl (Thrown (PatchError 400 noTarget)))
         \<and> getOwn (viewPayload jdoeStore (s_rawPayload jdoe_st)) ''name''
             = JObj [(''givenName'', JStr ''John''), (''familyName'', JStr ''Doe'')]
         \<and> getOwn (viewPayload (fst (UserPatchEngine_apply_st U jdoeStore
                      [replaceGivenName, removeNoPath] jdoe_st verboseConfig)) (s_rawPayload jdoe_st)) ''name''
             = JObj [(''givenName'', JStr ''Jane''), (''familyName'', JStr ''Doe'')]"
proof -
  have a: "UserPatchEngine_apply_st U jdoeStore [replaceGivenName, removeNoPath] jdoe_st verboseConfig
           = (jdoeStore(0 \<mapsto> JObj [(''givenName'', JStr ''Jane''), (''familyName'', JStr ''Doe'')]),
              Inl (Thrown (PatchError 400 noTarget)))"
    by (simp add: UserPatchEngine_apply_st_def jane_first_step [OF assms] remove_no_path_throws)
  have b: "getOwn (viewPayload jdoeStore (s_rawPayload jdoe_st)) ''name''
             = JObj [(''givenName'', JStr ''John''), (''familyName'', JStr ''Doe'')]"
    by (simp add: getOwn_def viewPayload_def deref_def jdoe_st_def jdoeStore_def)
  have c: "getOwn (viewPayload (jdoeStore(0 \<mapsto> JObj [(''givenName'', JStr ''Jane''), (''familyName'', JStr ''Doe'')]))
                     (s_rawPayload jdoe_st)) ''name''
             = JObj [(''givenName'', JStr ''Jane''), (''familyName'', JStr ''Doe'')]"
    by (simp add: getOwn_def viewPayload_def deref_def jdoe_st_def jdoeStore_def)
  show ?thesis
    by (simp only: a b c fst_conv simp_thms)
qed

theorem failed_batch_mutates_nested_payload_witness:
  "\<not> isExtensionPath_st plainPaths_st ''name.givenName''
   \<and> \<not> isValuePath_st plainPaths_st ''name.givenName''
   \<and> UserPatchEngine_apply_st plainPaths_st jdoeStore [replaceGivenName, removeNoPath] jdoe_st verboseConfig
       = (jdoeStore(0 \<mapsto> JObj [(''givenName'', JStr ''Jane''), (''familyName'', JStr ''Doe'')]),
          Inl (Thrown (PatchError 400 noTarget)))
   \<and> getOwn (viewPayload jdoeStore (s_rawPayload jdoe_st)) ''name''
       = JObj [(''givenName'', JStr ''John''), (''familyName'', JStr ''Doe'')]
   \<and> getOwn (viewPayload (fst (UserPatchEngine_apply_st plainPaths_st jdoeStore
                [replaceGivenName, removeNoPath] jdoe_st verboseConfig)) (s_rawPayload jdoe_st)) ''name''
       = JObj [(''givenName'', JStr ''Jane''), (''familyName'', JStr ''Doe'')]"
proof -
  have e: "\<not> isExtensionPath_st plainPaths_st ''name.givenName''"
    and v: "\<not> isValuePath_st plainPaths_st ''name.givenName''"
    by (simp_all add: plainPaths_st_def)
  show ?thesis
    using failed_batch_mutates_nested_payload [OF e v] e v by blast
qed

end
